theory Spec2Isabelle
  imports Complex_Main
begin

section \<open>Data model\<close>

text \<open>
  The relational store is modelled as three tables, each a list of rows in insertion
  order. Identifiers and grades are Python integers, hence \<open>int\<close>. A rating is the
  result of SQL \<open>avg\<close> over integer grades; it is modelled exactly, as a rational.
\<close>

text \<open>
  Modelled from the spec: the \<open>Category\<close> table of \<open>app.models.categories\<close> (id, name,
  optional parent reference, is_active flag).
\<close>

record category =
  c_id :: int
  c_name :: string
  c_parent_id :: "int option"
  c_is_active :: bool

text \<open>
  Modelled from the spec: the \<open>Product\<close> table of \<open>app.models.products\<close> (id, name,
  description, price, category reference, seller reference, rating defaulting to 0,
  is_active flag).
\<close>

record product =
  p_id :: int
  p_name :: string
  p_description :: string
  p_price :: rat
  p_category_id :: int
  p_seller_id :: int
  p_rating :: rat
  p_is_active :: bool

text \<open>The \<open>Review\<close> table of \<open>app/models/reviews.py\<close>.\<close>

record review =
  r_id :: int
  r_user_id :: int
  r_product_id :: int
  r_comment :: "string option"
  r_comment_date :: int
  r_grade :: int
  r_is_active :: bool

record db =
  categories :: "category list"
  products :: "product list"
  reviews :: "review list"

text \<open>The handlers read only the identifier of the authenticated user.\<close>

record user =
  u_id :: int

subsection \<open>Request payloads\<close>

text \<open>
  A payload field that the client may leave out: \<open>model_dump(exclude_unset=True)\<close>
  drops the fields that were never set, while reading the attribute gives the default.
\<close>

datatype 'a field = Unset | Given 'a

text \<open>
  Modelled from the spec: the \<open>CategoryCreate\<close> schema of \<open>app.schemas\<close> (a name and an
  optional parent id whose default is \<open>None\<close>).
\<close>

record category_create =
  cc_name :: string
  cc_parent_id :: "int option field"

definition parent_id :: "category_create \<Rightarrow> int option" where
  "parent_id category = (case cc_parent_id category of Unset \<Rightarrow> None | Given v \<Rightarrow> v)"

text \<open>
  Modelled from the spec: the \<open>ProductCreate\<close> schema of \<open>app.schemas\<close> (the mutable
  fields of a product; the rating and the owner are never set by a client).
\<close>

record product_create =
  pc_name :: string
  pc_description :: string
  pc_price :: rat
  pc_category_id :: int

text \<open>
  Modelled from the spec: the \<open>ReviewCreate\<close> schema of \<open>app.schemas\<close> (the reviewed
  product, an optional comment and the grade).
\<close>

record review_create =
  rc_product_id :: int
  rc_comment :: "string option"
  rc_grade :: int

subsection \<open>Errors\<close>

text \<open>
  \<open>HTTPException status detail\<close> is what the handlers raise. \<open>AttributeError\<close> is the
  assignment to \<open>None.rating\<close> in \<open>update_product_rating\<close>; \<open>InvalidRequestError\<close> is a
  \<open>refresh\<close> of a row that is no longer there.
\<close>

datatype error = HTTPException int string | AttributeError | InvalidRequestError

section \<open>The store\<close>

text \<open>The identifier given to an inserted row: one more than the largest one in use.\<close>

definition next_id :: "int list \<Rightarrow> int" where
  "next_id ids = foldr max ids 0 + 1"

definition empty_db :: db where
  "empty_db = \<lparr>categories = [], products = [], reviews = []\<rparr>"

section \<open>Categories (app/routers/categories.py)\<close>

definition get_all_categories :: "db \<Rightarrow> category list" where
  "get_all_categories db = filter c_is_active (categories db)"

definition new_category :: "category_create \<Rightarrow> db \<Rightarrow> category" where
  "new_category category db =
     \<lparr>c_id = next_id (map c_id (categories db)), c_name = cc_name category,
      c_parent_id = parent_id category, c_is_active = True\<rparr>"

definition insert_category :: "category_create \<Rightarrow> db \<Rightarrow> (error + category) \<times> db" where
  "insert_category category db =
     (Inr (new_category category db),
      db\<lparr>categories := categories db @ [new_category category db]\<rparr>)"

definition create_category :: "category_create \<Rightarrow> db \<Rightarrow> (error + category) \<times> db" where
  "create_category category db =
     (case parent_id category of
        None \<Rightarrow> insert_category category db
      | Some pid \<Rightarrow>
          (case find (\<lambda>c. c_id c = pid \<and> c_is_active c) (categories db) of
             None \<Rightarrow> (Inl (HTTPException 400 ''Parent category not found''), db)
           | Some parent \<Rightarrow> insert_category category db))"

text \<open>
  \<open>values(**category.model_dump(exclude_unset=True))\<close> on one row. The response of
  \<open>update_category\<close> and of \<open>delete_category\<close> is the row object that the first lookup
  loaded; whether the session has synchronised that object with the \<open>UPDATE\<close> statement is
  not modelled, and no property below depends on the body of these two responses.
\<close>

definition category_values :: "category_create \<Rightarrow> category \<Rightarrow> category" where
  "category_values category c =
     (case cc_parent_id category of
        Unset \<Rightarrow> c\<lparr>c_name := cc_name category\<rparr>
      | Given v \<Rightarrow> c\<lparr>c_name := cc_name category, c_parent_id := v\<rparr>)"

definition write_category :: "int \<Rightarrow> category_create \<Rightarrow> category \<Rightarrow> db \<Rightarrow> (error + category) \<times> db" where
  "write_category category_id category db_category db =
     (Inr db_category,
      db\<lparr>categories :=
           map (\<lambda>c. if c_id c = category_id then category_values category c else c)
             (categories db)\<rparr>)"

definition update_category :: "int \<Rightarrow> category_create \<Rightarrow> db \<Rightarrow> (error + category) \<times> db" where
  "update_category category_id category db =
     (case find (\<lambda>c. c_id c = category_id \<and> c_is_active c) (categories db) of
        None \<Rightarrow> (Inl (HTTPException 404 ''Category not found''), db)
      | Some db_category \<Rightarrow>
          (case parent_id category of
             None \<Rightarrow> write_category category_id category db_category db
           | Some pid \<Rightarrow>
               (case find (\<lambda>c. c_id c = pid \<and> c_is_active c) (categories db) of
                  None \<Rightarrow> (Inl (HTTPException 400 ''Parent category not found''), db)
                | Some parent \<Rightarrow>
                    if c_id parent = category_id
                    then (Inl (HTTPException 400 ''Category cannot be its own parent''), db)
                    else write_category category_id category db_category db)))"

definition delete_category :: "int \<Rightarrow> db \<Rightarrow> (error + category) \<times> db" where
  "delete_category category_id db =
     (case find (\<lambda>c. c_id c = category_id \<and> c_is_active c) (categories db) of
        None \<Rightarrow> (Inl (HTTPException 404 ''Category not found''), db)
      | Some db_category \<Rightarrow>
          (Inr db_category,
           db\<lparr>categories :=
                map (\<lambda>c. if c_id c = category_id then c\<lparr>c_is_active := False\<rparr> else c)
                  (categories db)\<rparr>))"

section \<open>Products (app/routers/products.py)\<close>

definition get_all_products :: "db \<Rightarrow> product list" where
  "get_all_products db = filter p_is_active (products db)"

definition new_product :: "product_create \<Rightarrow> db \<Rightarrow> user \<Rightarrow> product" where
  "new_product product db current_user =
     \<lparr>p_id = next_id (map p_id (products db)), p_name = pc_name product,
      p_description = pc_description product, p_price = pc_price product,
      p_category_id = pc_category_id product, p_seller_id = u_id current_user,
      p_rating = 0, p_is_active = True\<rparr>"

definition create_product :: "product_create \<Rightarrow> db \<Rightarrow> user \<Rightarrow> (error + product) \<times> db" where
  "create_product product db current_user =
     (case find (\<lambda>c. pc_category_id product = c_id c \<and> c_is_active c) (categories db) of
        None \<Rightarrow> (Inl (HTTPException 400 ''Category not found''), db)
      | Some category \<Rightarrow>
          (Inr (new_product product db current_user),
           db\<lparr>products := products db @ [new_product product db current_user]\<rparr>))"

definition get_products_by_category :: "int \<Rightarrow> db \<Rightarrow> error + product list" where
  "get_products_by_category category_id db =
     (case find (\<lambda>c. category_id = c_id c \<and> c_is_active c) (categories db) of
        None \<Rightarrow> Inl (HTTPException 400 ''Category not found'')
      | Some category \<Rightarrow>
          Inr (filter (\<lambda>p. p_category_id p = category_id \<and> p_is_active p) (products db)))"

definition get_product :: "int \<Rightarrow> db \<Rightarrow> error + product" where
  "get_product product_id db =
     (case find (\<lambda>p. p_id p = product_id \<and> p_is_active p) (products db) of
        None \<Rightarrow> Inl (HTTPException 404 ''Product not found'')
      | Some product \<Rightarrow> Inr product)"

text \<open>\<open>values(**product.model_dump())\<close> on one row.\<close>

definition product_values :: "product_create \<Rightarrow> product \<Rightarrow> product" where
  "product_values product p =
     p\<lparr>p_name := pc_name product, p_description := pc_description product,
       p_price := pc_price product, p_category_id := pc_category_id product\<rparr>"

text \<open>\<open>db.refresh(row)\<close>: the row is read again by its primary key.\<close>

definition refresh_product :: "db \<Rightarrow> product \<Rightarrow> error + product" where
  "refresh_product db row =
     (case find (\<lambda>p. p_id p = p_id row) (products db) of
        None \<Rightarrow> Inl InvalidRequestError
      | Some p \<Rightarrow> Inr p)"

definition update_product :: "int \<Rightarrow> product_create \<Rightarrow> db \<Rightarrow> user \<Rightarrow> (error + product) \<times> db" where
  "update_product product_id product db current_user =
     (case find (\<lambda>p. p_id p = product_id) (products db) of
        None \<Rightarrow> (Inl (HTTPException 404 ''Product not found''), db)
      | Some db_product \<Rightarrow>
          if p_seller_id db_product \<noteq> u_id current_user
          then (Inl (HTTPException 403 ''You can only update your own products''), db)
          else
            (case find (\<lambda>c. c_id c = pc_category_id product \<and> c_is_active c) (categories db) of
               None \<Rightarrow> (Inl (HTTPException 400 ''Category not found''), db)
             | Some db_category \<Rightarrow>
                 (let db' = db\<lparr>products :=
                               map (\<lambda>p. if p_id p = product_id then product_values product p else p)
                                 (products db)\<rparr>
                  in (refresh_product db' db_product, db'))))"

definition delete_product :: "int \<Rightarrow> db \<Rightarrow> user \<Rightarrow> (error + product) \<times> db" where
  "delete_product product_id db current_user =
     (case find (\<lambda>p. p_id p = product_id \<and> p_is_active p) (products db) of
        None \<Rightarrow> (Inl (HTTPException 404 ''Product not found''), db)
      | Some product \<Rightarrow>
          if p_seller_id product \<noteq> u_id current_user
          then (Inl (HTTPException 403 ''You can only delete your own products''), db)
          else
            (let db' = db\<lparr>products :=
                          map (\<lambda>p. if p_id p = product_id then p\<lparr>p_is_active := False\<rparr> else p)
                            (products db)\<rparr>
             in (refresh_product db' product, db')))"

definition get_product_reviews :: "int \<Rightarrow> db \<Rightarrow> error + review list" where
  "get_product_reviews product_id db =
     (case find (\<lambda>p. p_id p = product_id \<and> p_is_active p) (products db) of
        None \<Rightarrow> Inl (HTTPException 404 ''Product not found'')
      | Some product \<Rightarrow>
          Inr (filter (\<lambda>r. r_product_id r = product_id \<and> r_is_active r) (reviews db)))"

section \<open>Reviews (app/routers/reviews.py)\<close>

definition get_reviews :: "db \<Rightarrow> review list" where
  "get_reviews db = filter r_is_active (reviews db)"

text \<open>SQL \<open>avg\<close>: \<open>NULL\<close> over no rows.\<close>

definition avg :: "int list \<Rightarrow> rat option" where
  "avg gs = (if gs = [] then None else Some (of_int (sum_list gs) / of_int (int (length gs))))"

definition active_grades :: "db \<Rightarrow> int \<Rightarrow> int list" where
  "active_grades db product_id =
     map r_grade (filter (\<lambda>r. r_product_id r = product_id \<and> r_is_active r) (reviews db))"

text \<open>
  \<open>result.scalar() or 0.0\<close> gives 0.0 for \<open>None\<close> and for a mean that is itself zero.
  The function raises before it commits anything when the product row is missing.
\<close>

definition update_product_rating :: "db \<Rightarrow> int \<Rightarrow> error + db" where
  "update_product_rating db product_id =
     (let result = avg (active_grades db product_id);
          avg_rating = (case result of None \<Rightarrow> 0 | Some a \<Rightarrow> if a = 0 then 0 else a)
      in case find (\<lambda>p. p_id p = product_id) (products db) of
           None \<Rightarrow> Inl AttributeError
         | Some product \<Rightarrow>
             Inr (db\<lparr>products :=
                      map (\<lambda>p. if p_id p = p_id product then p\<lparr>p_rating := avg_rating\<rparr> else p)
                        (products db)\<rparr>))"

text \<open>\<open>now\<close> is the clock reading that the column default \<open>datetime.now\<close> stores.\<close>

definition new_review :: "review_create \<Rightarrow> db \<Rightarrow> user \<Rightarrow> int \<Rightarrow> review" where
  "new_review review db current_user now =
     \<lparr>r_id = next_id (map r_id (reviews db)), r_user_id = u_id current_user,
      r_product_id = rc_product_id review, r_comment = rc_comment review,
      r_comment_date = now, r_grade = rc_grade review, r_is_active = True\<rparr>"

text \<open>
  The review is committed before the rating is recomputed, so a failure of the
  recomputation leaves the review in the store.
\<close>

definition create_review :: "review_create \<Rightarrow> db \<Rightarrow> user \<Rightarrow> int \<Rightarrow> (error + review) \<times> db" where
  "create_review review db current_user now =
     (case find (\<lambda>p. p_id p = rc_product_id review \<and> p_is_active p) (products db) of
        None \<Rightarrow> (Inl (HTTPException 404 ''Product not found''), db)
      | Some db_product \<Rightarrow>
          if rc_grade review < 1 \<or> rc_grade review > 5
          then (Inl (HTTPException 400 ''The grade should be in the range from 1 to 5''), db)
          else
            (let db' = db\<lparr>reviews := reviews db @ [new_review review db current_user now]\<rparr>
             in case update_product_rating db' (p_id db_product) of
                  Inl e \<Rightarrow> (Inl e, db')
                | Inr db'' \<Rightarrow> (Inr (new_review review db current_user now), db'')))"

definition delete_review :: "int \<Rightarrow> db \<Rightarrow> user \<Rightarrow> (error + string) \<times> db" where
  "delete_review review_id db current_user =
     (case find (\<lambda>r. r_id r = review_id \<and> r_is_active r) (reviews db) of
        None \<Rightarrow> (Inl (HTTPException 404 ''Review not found''), db)
      | Some review \<Rightarrow>
          (let db' = db\<lparr>reviews :=
                        map (\<lambda>r. if r_id r = review_id then r\<lparr>r_is_active := False\<rparr> else r)
                          (reviews db)\<rparr>
           in case update_product_rating db' (r_product_id review) of
                Inl e \<Rightarrow> (Inl e, db')
              | Inr db'' \<Rightarrow> (Inr ''Review deleted'', db'')))"

section \<open>Requests and runs\<close>

datatype request =
    CreateCategory category_create
  | UpdateCategory int category_create
  | DeleteCategory int
  | CreateProduct product_create user
  | UpdateProduct int product_create user
  | DeleteProduct int user
  | CreateReview review_create user int
  | DeleteReview int user

text \<open>The store after one mutating request, whatever the response was.\<close>

fun step :: "request \<Rightarrow> db \<Rightarrow> db" where
  "step (CreateCategory category) db = snd (create_category category db)"
| "step (UpdateCategory category_id category) db = snd (update_category category_id category db)"
| "step (DeleteCategory category_id) db = snd (delete_category category_id db)"
| "step (CreateProduct product u) db = snd (create_product product db u)"
| "step (UpdateProduct product_id product u) db = snd (update_product product_id product db u)"
| "step (DeleteProduct product_id u) db = snd (delete_product product_id db u)"
| "step (CreateReview review u now) db = snd (create_review review db u now)"
| "step (DeleteReview review_id u) db = snd (delete_review review_id db u)"

fun run :: "request list \<Rightarrow> db \<Rightarrow> db" where
  "run [] db = db"
| "run (rq # rqs) db = run rqs (step rq db)"

section \<open>Properties of a store\<close>

text \<open>
  What the relational store itself enforces: primary keys are unique, and the product
  reference of a review is a foreign key into the product table.
\<close>

definition integrity :: "db \<Rightarrow> bool" where
  "integrity db \<longleftrightarrow>
     distinct (map c_id (categories db)) \<and>
     distinct (map p_id (products db)) \<and>
     distinct (map r_id (reviews db)) \<and>
     (\<forall>r \<in> set (reviews db). r_product_id r \<in> p_id ` set (products db))"

text \<open>
  The rating invariant of the specification: the rating of every product is the
  arithmetic mean of the grades of its active reviews, and 0 when it has none.
\<close>

definition mean :: "int list \<Rightarrow> rat" where
  "mean gs = (if gs = [] then 0 else of_int (sum_list gs) / of_int (int (length gs)))"

definition rating_invariant :: "db \<Rightarrow> bool" where
  "rating_invariant db \<longleftrightarrow>
     (\<forall>p \<in> set (products db). p_rating p = mean (active_grades db (p_id p)))"

text \<open>The ids of the active reviews of a product, and the ratings stored for a product id.\<close>

definition active_review_ids :: "db \<Rightarrow> int \<Rightarrow> int list" where
  "active_review_ids db product_id =
     map r_id (filter (\<lambda>r. r_product_id r = product_id \<and> r_is_active r) (reviews db))"

definition rating_of :: "db \<Rightarrow> int \<Rightarrow> rat list" where
  "rating_of db product_id = map p_rating (filter (\<lambda>p. p_id p = product_id) (products db))"

text \<open>Soft-deleting a list of reviews, one \<open>delete_review\<close> call after the other.\<close>

fun delete_reviews :: "int list \<Rightarrow> db \<Rightarrow> user \<Rightarrow> db" where
  "delete_reviews [] db u = db"
| "delete_reviews (rid # rids) db u = delete_reviews rids (snd (delete_review rid db u)) u"

text \<open>
  The category invariant of the specification: no category is its own parent, and a
  parent reference that is set points to a category that is currently active.
\<close>

definition active_category :: "db \<Rightarrow> int \<Rightarrow> bool" where
  "active_category db cid \<longleftrightarrow> (\<exists>c \<in> set (categories db). c_id c = cid \<and> c_is_active c)"

definition category_invariant :: "db \<Rightarrow> bool" where
  "category_invariant db \<longleftrightarrow>
     (\<forall>c \<in> set (categories db).
        case c_parent_id c of None \<Rightarrow> True
        | Some p \<Rightarrow> p \<noteq> c_id c \<and> active_category db p)"

text \<open>
  The part of it that does not mention activity: no category is its own parent, and a
  parent reference points to a row of the category table.
\<close>

definition category_structure :: "db \<Rightarrow> bool" where
  "category_structure db \<longleftrightarrow>
     (\<forall>c \<in> set (categories db).
        case c_parent_id c of None \<Rightarrow> True
        | Some p \<Rightarrow> p \<noteq> c_id c \<and> p \<in> c_id ` set (categories db))"

text \<open>
  Some row names the category as its parent; and a request that soft-deletes such a
  category.
\<close>

definition has_children :: "db \<Rightarrow> int \<Rightarrow> bool" where
  "has_children db cid \<longleftrightarrow> (\<exists>c \<in> set (categories db). c_parent_id c = Some cid)"

fun deletes_parent :: "request \<Rightarrow> db \<Rightarrow> bool" where
  "deletes_parent (DeleteCategory cid) db = has_children db cid"
| "deletes_parent rq db = False"

section \<open>Example stores\<close>

text \<open>
  A small store: an active root category, an active child of it and a soft-deleted
  category; an active product with two active reviews and a soft-deleted one, and a
  soft-deleted product without reviews.
\<close>

definition shop_db :: db where
  "shop_db =
     \<lparr>categories =
        [\<lparr>c_id = 1, c_name = ''Books'', c_parent_id = None, c_is_active = True\<rparr>,
         \<lparr>c_id = 2, c_name = ''Novels'', c_parent_id = Some 1, c_is_active = True\<rparr>,
         \<lparr>c_id = 3, c_name = ''Maps'', c_parent_id = None, c_is_active = False\<rparr>],
      products =
        [\<lparr>p_id = 1, p_name = ''Ulysses'', p_description = ''paperback'', p_price = 12,
          p_category_id = 2, p_seller_id = 10, p_rating = 9 / 2, p_is_active = True\<rparr>,
         \<lparr>p_id = 2, p_name = ''Atlas'', p_description = ''used'', p_price = 30,
          p_category_id = 2, p_seller_id = 10, p_rating = 0, p_is_active = False\<rparr>],
      reviews =
        [\<lparr>r_id = 1, r_user_id = 20, r_product_id = 1, r_comment = None,
          r_comment_date = 100, r_grade = 4, r_is_active = True\<rparr>,
         \<lparr>r_id = 2, r_user_id = 21, r_product_id = 1, r_comment = Some ''fine'',
          r_comment_date = 101, r_grade = 5, r_is_active = True\<rparr>,
         \<lparr>r_id = 3, r_user_id = 22, r_product_id = 1, r_comment = None,
          r_comment_date = 102, r_grade = 1, r_is_active = False\<rparr>]\<rparr>"

definition ulysses :: product where
  "ulysses =
     \<lparr>p_id = 1, p_name = ''Ulysses'', p_description = ''paperback'', p_price = 12,
      p_category_id = 2, p_seller_id = 10, p_rating = 9 / 2, p_is_active = True\<rparr>"

definition atlas :: product where
  "atlas =
     \<lparr>p_id = 2, p_name = ''Atlas'', p_description = ''used'', p_price = 30,
      p_category_id = 2, p_seller_id = 10, p_rating = 0, p_is_active = False\<rparr>"

definition bad_grade :: review_create where
  "bad_grade = \<lparr>rc_product_id = 1, rc_comment = None, rc_grade = 6\<rparr>"

definition books :: category where
  "books = \<lparr>c_id = 1, c_name = ''Books'', c_parent_id = None, c_is_active = True\<rparr>"

definition maps :: category where
  "maps = \<lparr>c_id = 3, c_name = ''Maps'', c_parent_id = None, c_is_active = False\<rparr>"

definition novels :: category where
  "novels = \<lparr>c_id = 2, c_name = ''Novels'', c_parent_id = Some 1, c_is_active = True\<rparr>"

definition first_review :: review where
  "first_review =
     \<lparr>r_id = 1, r_user_id = 20, r_product_id = 1, r_comment = None,
      r_comment_date = 100, r_grade = 4, r_is_active = True\<rparr>"

definition new_atlas :: product_create where
  "new_atlas = \<lparr>pc_name = ''Atlas'', pc_description = ''as new'', pc_price = 45, pc_category_id = 1\<rparr>"

text \<open>A run from the empty store: a category, a product in it and two reviews of it.\<close>

definition novels_payload :: category_create where
  "novels_payload = \<lparr>cc_name = ''Novels'', cc_parent_id = Unset\<rparr>"

definition ulysses_payload :: product_create where
  "ulysses_payload =
     \<lparr>pc_name = ''Ulysses'', pc_description = ''paperback'', pc_price = 12, pc_category_id = 1\<rparr>"

definition session :: "request list" where
  "session =
     [CreateCategory novels_payload,
      CreateProduct ulysses_payload \<lparr>u_id = 10\<rparr>,
      CreateReview \<lparr>rc_product_id = 1, rc_comment = None, rc_grade = 4\<rparr> \<lparr>u_id = 20\<rparr> 100,
      CreateReview \<lparr>rc_product_id = 1, rc_comment = Some ''fine'', rc_grade = 5\<rparr> \<lparr>u_id = 21\<rparr> 101]"

section \<open>Lookups\<close>

lemma find_SomeD: "find P xs = Some x \<Longrightarrow> x \<in> set xs \<and> P x"
  by (induction xs) (auto split: if_splits)

lemma find_ex: "x \<in> set xs \<Longrightarrow> P x \<Longrightarrow> \<exists>y. find P xs = Some y"
  by (cases "find P xs") (auto simp: find_None_iff)

lemma find_unique:
  "distinct (map f xs) \<Longrightarrow> x \<in> set xs \<Longrightarrow> find (\<lambda>y. f y = f x) xs = Some x"
  by (induction xs) (auto simp: image_iff)

lemma find_unique_active:
  "distinct (map f xs) \<Longrightarrow> x \<in> set xs \<Longrightarrow> Q x \<Longrightarrow>
     find (\<lambda>y. f y = f x \<and> Q y) xs = Some x"
  by (induction xs) (auto simp: image_iff)

lemma find_unique_inactive:
  "distinct (map f xs) \<Longrightarrow> x \<in> set xs \<Longrightarrow> \<not> Q x \<Longrightarrow>
     find (\<lambda>y. f y = f x \<and> Q y) xs = None"
  by (auto simp: find_None_iff distinct_map dest: inj_onD)

section \<open>Creating a review\<close>

text \<open>
  Claim C6. A request to create a review whose grade is below 1 or above 5, for a
  product that exists and is active, is answered with HTTP 400 "The grade should be in
  the range from 1 to 5" and the store is returned as it was: no review is added and no
  rating is touched.
\<close>

theorem create_review_invalid_grade:
  assumes "P \<in> set (products db)" and "p_id P = rc_product_id review" and "p_is_active P"
    and "rc_grade review < 1 \<or> rc_grade review > 5"
  shows "create_review review db current_user now =
           (Inl (HTTPException 400 ''The grade should be in the range from 1 to 5''), db)"
proof -
  obtain q where
    "find (\<lambda>p. p_id p = rc_product_id review \<and> p_is_active p) (products db) = Some q"
    using find_ex [of P "products db" "\<lambda>p. p_id p = rc_product_id review \<and> p_is_active p"]
      assms(1-3) by blast
  with assms(4) show ?thesis
    by (simp add: create_review_def)
qed

theorem create_review_invalid_grade_witness:
  "ulysses \<in> set (products shop_db) \<and> p_id ulysses = rc_product_id bad_grade \<and>
   p_is_active ulysses \<and> (rc_grade bad_grade < 1 \<or> rc_grade bad_grade > 5) \<and>
   create_review bad_grade shop_db \<lparr>u_id = 20\<rparr> 103 =
     (Inl (HTTPException 400 ''The grade should be in the range from 1 to 5''), shop_db)"
  using create_review_invalid_grade [of ulysses shop_db bad_grade "\<lparr>u_id = 20\<rparr>" 103]
  by (simp add: ulysses_def shop_db_def bad_grade_def)

text \<open>
  Claim C9. The product lookup comes before the grade check: when no active product has
  the requested id the answer is HTTP 404 "Product not found" whatever the grade is, and
  the grade error is only ever returned when an active product with that id exists.
\<close>

theorem create_review_check_order:
  "(\<not> (\<exists>P \<in> set (products db). p_id P = rc_product_id review \<and> p_is_active P) \<longrightarrow>
      create_review review db current_user now =
        (Inl (HTTPException 404 ''Product not found''), db))
   \<and> (fst (create_review review db current_user now) =
         Inl (HTTPException 400 ''The grade should be in the range from 1 to 5'') \<longrightarrow>
      (\<exists>P \<in> set (products db). p_id P = rc_product_id review \<and> p_is_active P))"
proof (cases "find (\<lambda>p. p_id p = rc_product_id review \<and> p_is_active p) (products db)")
  case None
  then have "\<not> (\<exists>P \<in> set (products db). p_id P = rc_product_id review \<and> p_is_active P)"
    by (auto simp: find_None_iff)
  with None show ?thesis
    by (simp add: create_review_def)
next
  case (Some q)
  from find_SomeD [OF Some] show ?thesis by blast
qed

theorem create_review_check_order_witness:
  "\<not> (\<exists>P \<in> set (products shop_db). p_id P = 2 \<and> p_is_active P) \<and>
   create_review \<lparr>rc_product_id = 2, rc_comment = None, rc_grade = 6\<rparr> shop_db \<lparr>u_id = 20\<rparr> 103 =
     (Inl (HTTPException 404 ''Product not found''), shop_db) \<and>
   fst (create_review bad_grade shop_db \<lparr>u_id = 20\<rparr> 103) =
     Inl (HTTPException 400 ''The grade should be in the range from 1 to 5'') \<and>
   (\<exists>P \<in> set (products shop_db). p_id P = rc_product_id bad_grade \<and> p_is_active P)"
  using create_review_check_order
          [of shop_db "\<lparr>rc_product_id = 2, rc_comment = None, rc_grade = 6\<rparr>" "\<lparr>u_id = 20\<rparr>" 103]
        create_review_check_order [of shop_db bad_grade "\<lparr>u_id = 20\<rparr>" 103]
  by (simp add: shop_db_def bad_grade_def create_review_def)

section \<open>Listing the products of a category\<close>

text \<open>
  Claim C7. A product is in the list that \<open>get_products_by_category c\<close> returns exactly
  when it is a product of the store whose category is \<open>c\<close>, that category is active and
  the product is active. When no active category has id \<open>c\<close> the call returns no list: it
  fails with "Category not found" (raised with HTTP status 400).
\<close>

theorem get_products_by_category_iff:
  "((\<exists>ps. get_products_by_category c db = Inr ps \<and> P \<in> set ps) \<longleftrightarrow>
     (P \<in> set (products db) \<and> p_category_id P = c \<and> p_is_active P \<and>
      (\<exists>C \<in> set (categories db). c_id C = p_category_id P \<and> c_is_active C)))
   \<and> (\<not> (\<exists>C \<in> set (categories db). c_id C = c \<and> c_is_active C) \<longrightarrow>
        get_products_by_category c db = Inl (HTTPException 400 ''Category not found''))"
proof (cases "find (\<lambda>x. c = c_id x \<and> c_is_active x) (categories db)")
  case None
  then have "\<not> (\<exists>C \<in> set (categories db). c_id C = c \<and> c_is_active C)"
    by (auto simp: find_None_iff)
  with None show ?thesis
    by (auto simp: get_products_by_category_def)
next
  case (Some C)
  from find_SomeD [OF Some] have "\<exists>C \<in> set (categories db). c_id C = c \<and> c_is_active C"
    by auto
  with Some show ?thesis
    by (auto simp: get_products_by_category_def)
qed

theorem get_products_by_category_iff_witness:
  "get_products_by_category 2 shop_db = Inr [ulysses] \<and>
   ulysses \<in> set (products shop_db) \<and> p_category_id ulysses = 2 \<and> p_is_active ulysses \<and>
   (\<exists>C \<in> set (categories shop_db). c_id C = p_category_id ulysses \<and> c_is_active C) \<and>
   \<not> (\<exists>C \<in> set (categories shop_db). c_id C = 3 \<and> c_is_active C) \<and>
   get_products_by_category 3 shop_db = Inl (HTTPException 400 ''Category not found'')"
  using get_products_by_category_iff [of 2 shop_db ulysses]
        get_products_by_category_iff [of 3 shop_db ulysses]
  by (simp add: shop_db_def ulysses_def get_products_by_category_def)

section \<open>A category as its own parent\<close>

text \<open>
  Claim C4, as stated, at a soft-deleted category: the target lookup of
  \<open>update_category\<close> filters on \<open>is_active\<close> and comes first, so the answer is HTTP 404
  "Category not found" and not the self-reference error.
\<close>

theorem update_category_self_parent_counterexample:
  "maps \<in> set (categories shop_db) \<and>
   parent_id \<lparr>cc_name = ''Maps'', cc_parent_id = Given (Some 3)\<rparr> = Some (c_id maps) \<and>
   update_category (c_id maps) \<lparr>cc_name = ''Maps'', cc_parent_id = Given (Some 3)\<rparr> shop_db =
     (Inl (HTTPException 404 ''Category not found''), shop_db)"
  by (simp add: maps_def shop_db_def parent_id_def update_category_def)

text \<open>
  Claim C4, amended. For every active category \<open>C\<close> of the store, \<open>update_category\<close> on
  \<open>C\<close> with a payload whose parent id is the id of \<open>C\<close> fails with HTTP 400 "Category
  cannot be its own parent" and returns the store as it was. For a soft-deleted \<open>C\<close> (ids
  being unique) the call fails with HTTP 404 "Category not found", the store again
  unchanged.
\<close>

theorem update_category_self_parent:
  assumes "C \<in> set (categories db)" and "parent_id category = Some (c_id C)"
  shows "(c_is_active C \<longrightarrow>
            update_category (c_id C) category db =
              (Inl (HTTPException 400 ''Category cannot be its own parent''), db))
       \<and> (\<not> c_is_active C \<and> distinct (map c_id (categories db)) \<longrightarrow>
            update_category (c_id C) category db =
              (Inl (HTTPException 404 ''Category not found''), db))"
proof (intro conjI impI)
  assume "c_is_active C"
  with assms(1) obtain D where
    D: "find (\<lambda>c. c_id c = c_id C \<and> c_is_active c) (categories db) = Some D"
    using find_ex [of C "categories db" "\<lambda>c. c_id c = c_id C \<and> c_is_active c"] by blast
  from find_SomeD [OF D] have "c_id D = c_id C" by simp
  with D assms(2) show "update_category (c_id C) category db =
      (Inl (HTTPException 400 ''Category cannot be its own parent''), db)"
    by (simp add: update_category_def)
next
  assume "\<not> c_is_active C \<and> distinct (map c_id (categories db))"
  with assms(1) have "find (\<lambda>c. c_id c = c_id C \<and> c_is_active c) (categories db) = None"
    by (simp add: find_unique_inactive)
  then show "update_category (c_id C) category db =
      (Inl (HTTPException 404 ''Category not found''), db)"
    by (simp add: update_category_def)
qed

theorem update_category_self_parent_witness:
  "books \<in> set (categories shop_db) \<and>
   parent_id \<lparr>cc_name = ''Books'', cc_parent_id = Given (Some 1)\<rparr> = Some (c_id books) \<and>
   c_is_active books \<and>
   update_category (c_id books) \<lparr>cc_name = ''Books'', cc_parent_id = Given (Some 1)\<rparr> shop_db =
     (Inl (HTTPException 400 ''Category cannot be its own parent''), shop_db) \<and>
   maps \<in> set (categories shop_db) \<and>
   parent_id \<lparr>cc_name = ''Maps'', cc_parent_id = Given (Some 3)\<rparr> = Some (c_id maps) \<and>
   \<not> c_is_active maps \<and> distinct (map c_id (categories shop_db)) \<and>
   update_category (c_id maps) \<lparr>cc_name = ''Maps'', cc_parent_id = Given (Some 3)\<rparr> shop_db =
     (Inl (HTTPException 404 ''Category not found''), shop_db)"
  using update_category_self_parent
          [of books shop_db "\<lparr>cc_name = ''Books'', cc_parent_id = Given (Some 1)\<rparr>"]
        update_category_self_parent
          [of maps shop_db "\<lparr>cc_name = ''Maps'', cc_parent_id = Given (Some 3)\<rparr>"]
  by (simp add: books_def maps_def shop_db_def parent_id_def)

section \<open>Ownership of products\<close>

text \<open>
  Claim C5, as stated, at a soft-deleted product of another seller: \<open>delete_product\<close>
  looks up active products only, so the answer is HTTP 404 "Product not found" and not
  403.
\<close>

theorem non_owner_delete_counterexample:
  "atlas \<in> set (products shop_db) \<and> p_seller_id atlas \<noteq> u_id \<lparr>u_id = 11\<rparr> \<and>
   delete_product (p_id atlas) shop_db \<lparr>u_id = 11\<rparr> =
     (Inl (HTTPException 404 ''Product not found''), shop_db)"
  by (simp add: atlas_def shop_db_def delete_product_def)

text \<open>
  Claim C5, amended. For every active product \<open>P\<close> whose seller is not the calling user,
  \<open>update_product\<close> (with any payload, valid or not) and \<open>delete_product\<close> both fail with
  HTTP 403 and return the store as it was. \<open>delete_product\<close> on a soft-deleted product
  fails with HTTP 404 "Product not found", the store unchanged.
\<close>

theorem non_owner_forbidden:
  assumes "distinct (map p_id (products db))" and "P \<in> set (products db)"
    and "p_seller_id P \<noteq> u_id S"
  shows "(p_is_active P \<longrightarrow>
            update_product (p_id P) product db S =
              (Inl (HTTPException 403 ''You can only update your own products''), db) \<and>
            delete_product (p_id P) db S =
              (Inl (HTTPException 403 ''You can only delete your own products''), db))
       \<and> (\<not> p_is_active P \<longrightarrow>
            delete_product (p_id P) db S = (Inl (HTTPException 404 ''Product not found''), db))"
proof -
  have u: "find (\<lambda>p. p_id p = p_id P) (products db) = Some P"
    using assms(1,2) by (rule find_unique)
  have a: "p_is_active P \<Longrightarrow>
      find (\<lambda>p. p_id p = p_id P \<and> p_is_active p) (products db) = Some P"
    using assms(1,2) by (rule find_unique_active)
  have i: "\<not> p_is_active P \<Longrightarrow>
      find (\<lambda>p. p_id p = p_id P \<and> p_is_active p) (products db) = None"
    using assms(1,2) by (rule find_unique_inactive)
  show ?thesis
    using u a i assms(3) by (simp add: update_product_def delete_product_def)
qed

theorem non_owner_forbidden_witness:
  "distinct (map p_id (products shop_db)) \<and> ulysses \<in> set (products shop_db) \<and>
   p_seller_id ulysses \<noteq> u_id \<lparr>u_id = 11\<rparr> \<and> p_is_active ulysses \<and>
   update_product (p_id ulysses) (new_atlas\<lparr>pc_category_id := 3\<rparr>) shop_db \<lparr>u_id = 11\<rparr> =
     (Inl (HTTPException 403 ''You can only update your own products''), shop_db) \<and>
   delete_product (p_id ulysses) shop_db \<lparr>u_id = 11\<rparr> =
     (Inl (HTTPException 403 ''You can only delete your own products''), shop_db) \<and>
   atlas \<in> set (products shop_db) \<and> p_seller_id atlas \<noteq> u_id \<lparr>u_id = 11\<rparr> \<and>
   \<not> p_is_active atlas \<and>
   delete_product (p_id atlas) shop_db \<lparr>u_id = 11\<rparr> =
     (Inl (HTTPException 404 ''Product not found''), shop_db)"
  using non_owner_forbidden [of shop_db ulysses "\<lparr>u_id = 11\<rparr>" "new_atlas\<lparr>pc_category_id := 3\<rparr>"]
        non_owner_forbidden [of shop_db atlas "\<lparr>u_id = 11\<rparr>" new_atlas]
  by (simp add: ulysses_def atlas_def shop_db_def)

section \<open>Soft-deleted rows in validation lookups\<close>

text \<open>
  Claim C3. The lookup of \<open>update_product\<close> selects by id alone, without the
  \<open>is_active\<close> filter that every other product lookup has. On the soft-deleted product
  of the example store, called by its owner, it does not answer 404: it overwrites the
  row and returns it.
\<close>

theorem update_product_soft_deleted:
  "atlas \<in> set (products shop_db) \<and> \<not> p_is_active atlas \<and>
   update_product (p_id atlas) new_atlas shop_db \<lparr>u_id = 10\<rparr> =
     (Inr (product_values new_atlas atlas),
      shop_db\<lparr>products := [ulysses, product_values new_atlas atlas]\<rparr>) \<and>
   product_values new_atlas atlas \<noteq> atlas"
  by (simp add: atlas_def ulysses_def new_atlas_def shop_db_def update_product_def
      product_values_def refresh_product_def)

text \<open>
  The category lookups of the same claim do filter: a soft-deleted category is accepted
  neither as a parent nor as the category of a new product.
\<close>

lemma inactive_category_not_parent:
  assumes "distinct (map c_id (categories db))" and "C \<in> set (categories db)"
    and "\<not> c_is_active C" and "parent_id category = Some (c_id C)"
  shows "create_category category db = (Inl (HTTPException 400 ''Parent category not found''), db)"
    and "update_category category_id category db =
           (Inl (HTTPException 404 ''Category not found''), db) \<or>
         update_category category_id category db =
           (Inl (HTTPException 400 ''Parent category not found''), db)"
  using find_unique_inactive [of c_id "categories db" C c_is_active, OF assms(1-3)] assms(4)
  by (simp_all add: create_category_def update_category_def split: option.split)

lemma inactive_category_not_product_category:
  assumes "distinct (map c_id (categories db))" and "C \<in> set (categories db)"
    and "\<not> c_is_active C" and "pc_category_id product = c_id C"
  shows "create_product product db current_user =
           (Inl (HTTPException 400 ''Category not found''), db)"
proof -
  have "find (\<lambda>c. pc_category_id product = c_id c \<and> c_is_active c) (categories db) = None"
    using find_unique_inactive [of c_id "categories db" C c_is_active, OF assms(1-3)] assms(4) by (simp add: eq_commute)
  then show ?thesis by (simp add: create_product_def)
qed

section \<open>The category invariant\<close>

lemma next_id_fresh: "x \<in> set ids \<Longrightarrow> x < next_id ids"
  unfolding next_id_def by (induction ids) auto

lemma invariant_structure: "category_invariant db \<Longrightarrow> category_structure db"
  unfolding category_invariant_def category_structure_def active_category_def
  by (fastforce split: option.splits)

lemma category_invariant_cong:
  "categories db' = categories db \<Longrightarrow> category_invariant db' = category_invariant db"
  by (simp add: category_invariant_def active_category_def cong: option.case_cong)

lemma category_structure_cong:
  "categories db' = categories db \<Longrightarrow> category_structure db' = category_structure db"
  by (simp add: category_structure_def cong: option.case_cong)

lemma insert_category_invariant:
  assumes "category_invariant db"
    and "parent_id category = None \<or> (\<exists>pid. parent_id category = Some pid \<and> active_category db pid)"
  shows "category_invariant (snd (insert_category category db))"
proof -
  let ?n = "new_category category db"
  have fresh: "\<And>c. c \<in> set (categories db) \<Longrightarrow> c_id c \<noteq> c_id ?n"
    using next_id_fresh [of _ "map c_id (categories db)"]
    by (fastforce simp: new_category_def)
  have new: "case c_parent_id ?n of None \<Rightarrow> True
             | Some p \<Rightarrow> p \<noteq> c_id ?n \<and> active_category db p"
    using assms(2) fresh
    by (auto simp: new_category_def active_category_def split: option.splits)
  have mono: "\<And>p. active_category db p \<Longrightarrow>
      active_category (db\<lparr>categories := categories db @ [?n]\<rparr>) p"
    by (auto simp: active_category_def)
  show ?thesis
    using assms(1) new mono
    unfolding category_invariant_def insert_category_def
    by (auto split: option.splits)
qed

lemma create_category_invariant:
  "category_invariant db \<Longrightarrow> category_invariant (snd (create_category category db))"
proof (cases "parent_id category")
  case None
  assume "category_invariant db"
  with None show ?thesis
    by (simp add: create_category_def insert_category_invariant)
next
  case (Some pid)
  assume inv: "category_invariant db"
  show ?thesis
  proof (cases "find (\<lambda>c. c_id c = pid \<and> c_is_active c) (categories db)")
    case None
    with Some inv show ?thesis by (simp add: create_category_def)
  next
    case (Some parent)
    from find_SomeD [OF Some] have "active_category db pid"
      by (auto simp: active_category_def)
    with inv \<open>parent_id category = Some pid\<close> Some show ?thesis
      by (simp add: create_category_def insert_category_invariant)
  qed
qed

lemma write_category_invariant:
  assumes "category_invariant db"
    and "parent_id category = None \<or>
         (\<exists>pid. parent_id category = Some pid \<and> pid \<noteq> category_id \<and> active_category db pid)"
  shows "category_invariant (snd (write_category category_id category db_category db))"
proof -
  define f :: "category \<Rightarrow> category" where "f = (\<lambda>c. if c_id c = category_id then category_values category c else c)"
  define db' where "db' = db\<lparr>categories := map f (categories db)\<rparr>"
  have ids: "\<And>c. c_id (f c) = c_id c" and act: "\<And>c. c_is_active (f c) = c_is_active c"
    by (auto simp: f_def category_values_def split: field.splits)
  have same: "\<And>p. active_category db' p = active_category db p"
    unfolding active_category_def db'_def by (simp add: ids act)
  have row: "case c_parent_id (f c) of None \<Rightarrow> True
       | Some p \<Rightarrow> p \<noteq> c_id (f c) \<and> active_category db p"
    if c: "c \<in> set (categories db)" for c
  proof -
    from assms(1) c have old: "case c_parent_id c of None \<Rightarrow> True
       | Some p \<Rightarrow> p \<noteq> c_id c \<and> active_category db p"
      by (auto simp: category_invariant_def)
    show ?thesis
      using old assms(2)
      by (auto simp: f_def category_values_def parent_id_def split: field.splits option.splits)
  qed
  have "\<forall>c \<in> set (categories db').
      case c_parent_id c of None \<Rightarrow> True | Some p \<Rightarrow> p \<noteq> c_id c \<and> active_category db' p"
    unfolding same unfolding db'_def using row by simp
  then have "category_invariant db'"
    by (simp add: category_invariant_def)
  then show ?thesis
    by (simp add: write_category_def db'_def f_def)
qed

lemma update_category_invariant:
  assumes "category_invariant db"
  shows "category_invariant (snd (update_category category_id category db))"
proof (cases "find (\<lambda>c. c_id c = category_id \<and> c_is_active c) (categories db)")
  case None
  with assms show ?thesis by (simp add: update_category_def)
next
  case target: (Some db_category)
  show ?thesis
  proof (cases "parent_id category")
    case None
    with target assms show ?thesis
      by (simp add: update_category_def write_category_invariant)
  next
    case (Some pid)
    show ?thesis
    proof (cases "find (\<lambda>c. c_id c = pid \<and> c_is_active c) (categories db)")
      case None
      with target Some assms show ?thesis by (simp add: update_category_def)
    next
      case parent: (Some parent)
      from find_SomeD [OF parent] have "active_category db pid" and "c_id parent = pid"
        by (auto simp: active_category_def)
      with target Some parent assms show ?thesis
        by (simp add: update_category_def write_category_invariant)
    qed
  qed
qed

lemma delete_category_structure:
  assumes "category_structure db"
  shows "category_structure (snd (delete_category category_id db))"
proof (cases "find (\<lambda>c. c_id c = category_id \<and> c_is_active c) (categories db)")
  case None
  with assms show ?thesis by (simp add: delete_category_def)
next
  case (Some db_category)
  define f :: "category \<Rightarrow> category" where "f = (\<lambda>c. if c_id c = category_id then c\<lparr>c_is_active := False\<rparr> else c)"
  define db' where "db' = db\<lparr>categories := map f (categories db)\<rparr>"
  have ids: "\<And>c. c_id (f c) = c_id c" and par: "\<And>c. c_parent_id (f c) = c_parent_id c"
    by (auto simp: f_def)
  have img: "c_id ` set (categories db') = c_id ` set (categories db)"
    by (simp add: db'_def image_image ids)
  have "\<forall>c \<in> set (categories db').
      case c_parent_id c of None \<Rightarrow> True
      | Some p \<Rightarrow> p \<noteq> c_id c \<and> p \<in> c_id ` set (categories db')"
    unfolding img unfolding db'_def using assms
    by (simp add: ids par category_structure_def cong: option.case_cong)
  then have "category_structure db'"
    by (simp add: category_structure_def)
  with Some show ?thesis
    by (simp add: delete_category_def db'_def f_def)
qed

lemma delete_category_invariant:
  assumes "category_invariant db" and "\<not> has_children db category_id"
  shows "category_invariant (snd (delete_category category_id db))"
proof (cases "find (\<lambda>c. c_id c = category_id \<and> c_is_active c) (categories db)")
  case None
  with assms show ?thesis by (simp add: delete_category_def)
next
  case (Some db_category)
  define f :: "category \<Rightarrow> category" where "f = (\<lambda>c. if c_id c = category_id then c\<lparr>c_is_active := False\<rparr> else c)"
  define db' where "db' = db\<lparr>categories := map f (categories db)\<rparr>"
  have ids: "\<And>c. c_id (f c) = c_id c" and par: "\<And>c. c_parent_id (f c) = c_parent_id c"
    and act: "\<And>c. c_id c \<noteq> category_id \<Longrightarrow> c_is_active (f c) = c_is_active c"
    by (auto simp: f_def)
  have keep: "active_category db' p" if "p \<noteq> category_id" and "active_category db p" for p
  proof -
    from that obtain c where "c \<in> set (categories db)" "c_id c = p" "c_is_active c"
      by (auto simp: active_category_def)
    with that(1) have "f c \<in> set (categories db')" "c_id (f c) = p" "c_is_active (f c)"
      by (simp_all add: db'_def ids act)
    then show ?thesis
      unfolding active_category_def by blast
  qed
  have "case c_parent_id (f c) of None \<Rightarrow> True
      | Some p \<Rightarrow> p \<noteq> c_id (f c) \<and> active_category db' p"
    if c: "c \<in> set (categories db)" for c
  proof -
    from c assms(2) have "c_parent_id c \<noteq> Some category_id"
      by (auto simp: has_children_def)
    moreover from assms(1) c have "case c_parent_id c of None \<Rightarrow> True
       | Some p \<Rightarrow> p \<noteq> c_id c \<and> active_category db p"
      by (auto simp: category_invariant_def)
    ultimately show ?thesis
      using keep by (auto simp: ids par split: option.splits)
  qed
  then have "\<forall>c \<in> set (categories db').
      case c_parent_id c of None \<Rightarrow> True | Some p \<Rightarrow> p \<noteq> c_id c \<and> active_category db' p"
    unfolding db'_def by simp
  then have "category_invariant db'"
    by (simp add: category_invariant_def)
  with Some show ?thesis
    by (simp add: delete_category_def db'_def f_def)
qed

lemma update_product_rating_categories:
  "update_product_rating db pid = Inr db' \<Longrightarrow> categories db' = categories db"
  by (auto simp: update_product_rating_def Let_def split: option.splits)

lemma create_product_categories:
  "categories (snd (create_product product db u)) = categories db"
  by (simp add: create_product_def split: option.splits)

lemma update_product_categories:
  "categories (snd (update_product pid product db u)) = categories db"
  by (simp add: update_product_def Let_def split: option.splits)

lemma delete_product_categories:
  "categories (snd (delete_product pid db u)) = categories db"
  by (simp add: delete_product_def Let_def split: option.splits)

lemma create_review_categories:
  "categories (snd (create_review review db u now)) = categories db"
  by (auto simp: create_review_def Let_def update_product_rating_categories
      split: option.splits sum.splits dest!: update_product_rating_categories)

lemma delete_review_categories:
  "categories (snd (delete_review rid db u)) = categories db"
  by (auto simp: delete_review_def Let_def
      split: option.splits sum.splits dest!: update_product_rating_categories)

lemma insert_category_structure:
  assumes "category_structure db"
    and "parent_id category = None \<or>
         (\<exists>pid. parent_id category = Some pid \<and> pid \<in> c_id ` set (categories db))"
  shows "category_structure (snd (insert_category category db))"
proof -
  define n where "n = new_category category db"
  have fresh: "c_id c \<noteq> c_id n" if "c \<in> set (categories db)" for c
    using that next_id_fresh [of "c_id c" "map c_id (categories db)"]
    by (simp add: n_def new_category_def)
  have new: "case c_parent_id n of None \<Rightarrow> True
             | Some p \<Rightarrow> p \<noteq> c_id n \<and> p \<in> c_id ` set (categories db)"
    using assms(2) fresh
    by (auto simp: n_def new_category_def split: option.splits)
  have "\<forall>c \<in> set (categories db @ [n]).
      case c_parent_id c of None \<Rightarrow> True
      | Some p \<Rightarrow> p \<noteq> c_id c \<and> p \<in> c_id ` set (categories db @ [n])"
    using assms(1) new
    by (auto simp: category_structure_def split: option.splits)
  then show ?thesis
    by (simp add: category_structure_def insert_category_def n_def cong: option.case_cong)
qed

lemma create_category_structure:
  assumes "category_structure db"
  shows "category_structure (snd (create_category category db))"
proof (cases "parent_id category")
  case None
  with assms show ?thesis
    by (simp add: create_category_def insert_category_structure)
next
  case (Some pid)
  show ?thesis
  proof (cases "find (\<lambda>c. c_id c = pid \<and> c_is_active c) (categories db)")
    case None
    with Some assms show ?thesis by (simp add: create_category_def)
  next
    case found: (Some parent)
    from find_SomeD [OF found] have "pid \<in> c_id ` set (categories db)"
      by force
    with assms Some found show ?thesis
      by (simp add: create_category_def insert_category_structure)
  qed
qed

lemma write_category_structure:
  assumes "category_structure db"
    and "parent_id category = None \<or>
         (\<exists>pid. parent_id category = Some pid \<and> pid \<noteq> category_id \<and>
            pid \<in> c_id ` set (categories db))"
  shows "category_structure (snd (write_category category_id category db_category db))"
proof -
  define f :: "category \<Rightarrow> category" where
    "f = (\<lambda>c. if c_id c = category_id then category_values category c else c)"
  define db' where "db' = db\<lparr>categories := map f (categories db)\<rparr>"
  have ids: "\<And>c. c_id (f c) = c_id c"
    by (auto simp: f_def category_values_def split: field.splits)
  have img: "c_id ` set (categories db') = c_id ` set (categories db)"
    by (simp add: db'_def image_image ids)
  have row: "case c_parent_id (f c) of None \<Rightarrow> True
       | Some p \<Rightarrow> p \<noteq> c_id (f c) \<and> p \<in> c_id ` set (categories db)"
    if c: "c \<in> set (categories db)" for c
  proof -
    from assms(1) c have old: "case c_parent_id c of None \<Rightarrow> True
       | Some p \<Rightarrow> p \<noteq> c_id c \<and> p \<in> c_id ` set (categories db)"
      by (auto simp: category_structure_def)
    show ?thesis
      using old assms(2)
      by (auto simp: f_def category_values_def parent_id_def split: field.splits option.splits)
  qed
  have "\<forall>c \<in> set (categories db').
      case c_parent_id c of None \<Rightarrow> True
      | Some p \<Rightarrow> p \<noteq> c_id c \<and> p \<in> c_id ` set (categories db')"
    unfolding img unfolding db'_def using row by simp
  then have "category_structure db'"
    by (simp add: category_structure_def)
  then show ?thesis
    by (simp add: write_category_def db'_def f_def)
qed

lemma update_category_structure:
  assumes "category_structure db"
  shows "category_structure (snd (update_category category_id category db))"
proof (cases "find (\<lambda>c. c_id c = category_id \<and> c_is_active c) (categories db)")
  case None
  with assms show ?thesis by (simp add: update_category_def)
next
  case target: (Some db_category)
  show ?thesis
  proof (cases "parent_id category")
    case None
    with target assms show ?thesis
      by (simp add: update_category_def write_category_structure)
  next
    case (Some pid)
    show ?thesis
    proof (cases "find (\<lambda>c. c_id c = pid \<and> c_is_active c) (categories db)")
      case None
      with target Some assms show ?thesis by (simp add: update_category_def)
    next
      case parent: (Some parent)
      from find_SomeD [OF parent] have "pid \<in> c_id ` set (categories db)" and "c_id parent = pid"
        by force+
      with target Some parent assms show ?thesis
        by (simp add: update_category_def write_category_structure)
    qed
  qed
qed

lemma category_structure_step:
  assumes "category_structure db"
  shows "category_structure (step rq db)"
proof (cases rq)
  case (CreateCategory category)
  with assms show ?thesis by (simp add: create_category_structure)
next
  case (UpdateCategory cid category)
  with assms show ?thesis by (simp add: update_category_structure)
next
  case (DeleteCategory cid)
  with assms show ?thesis by (simp add: delete_category_structure)
next
  case (CreateProduct product u)
  with assms show ?thesis
    by (simp add: category_structure_cong [OF create_product_categories])
next
  case (UpdateProduct pid product u)
  with assms show ?thesis
    by (simp add: category_structure_cong [OF update_product_categories])
next
  case (DeleteProduct pid u)
  with assms show ?thesis
    by (simp add: category_structure_cong [OF delete_product_categories])
next
  case (CreateReview review u now)
  with assms show ?thesis
    by (simp add: category_structure_cong [OF create_review_categories])
next
  case (DeleteReview rid u)
  with assms show ?thesis
    by (simp add: category_structure_cong [OF delete_review_categories])
qed

lemma category_invariant_kept:
  assumes "category_invariant db" and "\<not> deletes_parent rq db"
  shows "category_invariant (step rq db)"
proof (cases rq)
  case (DeleteCategory cid)
  with assms show ?thesis by (simp add: delete_category_invariant)
next
  case (CreateCategory category)
  with assms show ?thesis by (simp add: create_category_invariant)
next
  case (UpdateCategory cid category)
  with assms show ?thesis by (simp add: update_category_invariant)
next
  case (CreateProduct product u)
  with assms show ?thesis
    by (simp add: category_invariant_cong [OF create_product_categories])
next
  case (UpdateProduct pid product u)
  with assms show ?thesis
    by (simp add: category_invariant_cong [OF update_product_categories])
next
  case (DeleteProduct pid u)
  with assms show ?thesis
    by (simp add: category_invariant_cong [OF delete_product_categories])
next
  case (CreateReview review u now)
  with assms show ?thesis
    by (simp add: category_invariant_cong [OF create_review_categories])
next
  case (DeleteReview rid u)
  with assms show ?thesis
    by (simp add: category_invariant_cong [OF delete_review_categories])
qed

text \<open>
  Claim C2, as stated, at the example store: category 1 is the active parent of the
  active category 2. \<open>delete_category\<close> only clears the flag of category 1, so afterwards
  category 2 references a parent that is not active.
\<close>

theorem category_invariant_delete_counterexample:
  "category_invariant shop_db \<and> has_children shop_db 1 \<and>
   \<not> category_invariant (step (DeleteCategory 1) shop_db)"
  by (simp add: category_invariant_def active_category_def has_children_def shop_db_def
      delete_category_def)

text \<open>
  Claim C2, amended. Every request leaves a store in which no category is its own parent
  and every parent reference points to a row of the category table, when that held
  before; and every request other than the soft-delete of a category that some row names
  as its parent leaves the full category invariant holding, when it held before.
\<close>

theorem category_invariant_step:
  "(category_structure db \<longrightarrow> category_structure (step rq db)) \<and>
   (category_invariant db \<and> \<not> deletes_parent rq db \<longrightarrow> category_invariant (step rq db))"
  using category_structure_step [of db rq] category_invariant_kept [of db rq] by blast

theorem category_invariant_step_witness:
  "category_structure shop_db \<and>
   category_structure (step (DeleteCategory 1) shop_db) \<and>
   \<not> category_invariant (step (DeleteCategory 1) shop_db) \<and>
   category_structure (step (DeleteCategory 2) (step (DeleteCategory 1) shop_db)) \<and>
   category_invariant shop_db \<and> \<not> deletes_parent (DeleteCategory 2) shop_db \<and>
   category_invariant (step (DeleteCategory 2) shop_db)"
  using category_invariant_step [of shop_db "DeleteCategory 1"]
        category_invariant_step [of "step (DeleteCategory 1) shop_db" "DeleteCategory 2"]
        category_invariant_step [of shop_db "DeleteCategory 2"]
  by (simp add: category_invariant_def category_structure_def active_category_def
      has_children_def shop_db_def delete_category_def)

section \<open>The rating invariant\<close>

lemma avg_rating_mean: "(case avg gs of None \<Rightarrow> 0 | Some a \<Rightarrow> if a = 0 then 0 else a) = mean gs"
  by (simp add: avg_def mean_def)

lemma active_grades_cong: "reviews db' = reviews db \<Longrightarrow> active_grades db' = active_grades db"
  by (simp add: active_grades_def fun_eq_iff)

lemma update_product_rating_Inr:
  assumes "update_product_rating db pid = Inr db'"
  shows "db' = db\<lparr>products :=
                   map (\<lambda>p. if p_id p = pid then p\<lparr>p_rating := mean (active_grades db pid)\<rparr> else p)
                     (products db)\<rparr>"
proof (cases "find (\<lambda>p. p_id p = pid) (products db)")
  case None
  with assms show ?thesis by (simp add: update_product_rating_def)
next
  case (Some product)
  from find_SomeD [OF Some] have "p_id product = pid" by simp
  with assms Some show ?thesis
    by (auto simp: update_product_rating_def avg_rating_mean)
qed

lemma update_product_rating_Inl:
  assumes "update_product_rating db pid = Inl e"
  shows "pid \<notin> p_id ` set (products db)"
proof (cases "find (\<lambda>p. p_id p = pid) (products db)")
  case None
  then show ?thesis by (auto simp: find_None_iff)
next
  case (Some product)
  with assms show ?thesis by (simp add: update_product_rating_def)
qed

lemma update_product_rating_total:
  assumes "pid \<in> p_id ` set (products db)"
  shows "\<exists>db'. update_product_rating db pid = Inr db'"
  using assms update_product_rating_Inl [of db pid]
  by (cases "update_product_rating db pid") auto

lemma rating_invariant_after_update:
  assumes "\<forall>p \<in> set (products db). p_id p \<noteq> pid \<longrightarrow> p_rating p = mean (active_grades db (p_id p))"
    and "update_product_rating db pid = Inr db'"
  shows "rating_invariant db'"
proof -
  define f :: "product \<Rightarrow> product" where
    "f = (\<lambda>p. if p_id p = pid then p\<lparr>p_rating := mean (active_grades db pid)\<rparr> else p)"
  have db': "db' = db\<lparr>products := map f (products db)\<rparr>"
    using update_product_rating_Inr [OF assms(2)] by (simp add: f_def)
  have g: "active_grades db' = active_grades db"
    by (rule active_grades_cong) (simp add: db')
  have "p_rating (f p) = mean (active_grades db (p_id (f p)))" if "p \<in> set (products db)" for p
    using that assms(1) by (auto simp: f_def)
  then show ?thesis
    unfolding rating_invariant_def g by (simp add: db')
qed

lemma rating_invariant_without_product:
  assumes "\<forall>p \<in> set (products db). p_id p \<noteq> pid \<longrightarrow> p_rating p = mean (active_grades db (p_id p))"
    and "update_product_rating db pid = Inl e"
  shows "rating_invariant db"
  using assms(1) update_product_rating_Inl [OF assms(2)]
  by (auto simp: rating_invariant_def)

lemma map_filter_map:
  "(\<And>x. x \<in> set xs \<Longrightarrow> P (f x) = P x \<and> (P x \<longrightarrow> g (f x) = g x)) \<Longrightarrow>
     map g (filter P (map f xs)) = map g (filter P xs)"
  by (induction xs) auto

lemma distinct_same_id:
  "distinct (map f xs) \<Longrightarrow> x \<in> set xs \<Longrightarrow> y \<in> set xs \<Longrightarrow> f x = f y \<Longrightarrow> x = y"
  by (auto simp: distinct_map dest: inj_onD)

lemma create_review_rating:
  assumes "rating_invariant db"
  shows "rating_invariant (snd (create_review review db u now))"
proof (cases "find (\<lambda>p. p_id p = rc_product_id review \<and> p_is_active p) (products db)")
  case None
  with assms show ?thesis by (simp add: create_review_def)
next
  case (Some db_product)
  from find_SomeD [OF Some] have pid: "p_id db_product = rc_product_id review" by simp
  show ?thesis
  proof (cases "rc_grade review < 1 \<or> rc_grade review > 5")
    case True
    with Some assms show ?thesis by (simp add: create_review_def)
  next
    case False
    define db' where "db' = db\<lparr>reviews := reviews db @ [new_review review db u now]\<rparr>"
    have other: "\<forall>p \<in> set (products db'). p_id p \<noteq> rc_product_id review \<longrightarrow>
        p_rating p = mean (active_grades db' (p_id p))"
      using assms
      by (auto simp: db'_def rating_invariant_def active_grades_def new_review_def)
    show ?thesis
    proof (cases "update_product_rating db' (rc_product_id review)")
      case (Inl e)
      with Some False pid rating_invariant_without_product [OF other Inl] show ?thesis
        by (simp add: create_review_def db'_def)
    next
      case (Inr db'')
      with Some False pid rating_invariant_after_update [OF other Inr] show ?thesis
        by (simp add: create_review_def db'_def)
    qed
  qed
qed

lemma delete_review_rating:
  assumes "distinct (map r_id (reviews db))" and "rating_invariant db"
  shows "rating_invariant (snd (delete_review rid db u))"
proof (cases "find (\<lambda>r. r_id r = rid \<and> r_is_active r) (reviews db)")
  case None
  with assms show ?thesis by (simp add: delete_review_def)
next
  case (Some review)
  from find_SomeD [OF Some] have R: "review \<in> set (reviews db)" "r_id review = rid" by simp_all
  define f :: "review \<Rightarrow> review" where
    "f = (\<lambda>r. if r_id r = rid then r\<lparr>r_is_active := False\<rparr> else r)"
  define db' where "db' = db\<lparr>reviews := map f (reviews db)\<rparr>"
  have same: "active_grades db' q = active_grades db q" if "q \<noteq> r_product_id review" for q
    unfolding active_grades_def db'_def db.simps
  proof (simp, rule map_filter_map)
    fix x assume x: "x \<in> set (reviews db)"
    have "r_id x = rid \<Longrightarrow> x = review"
      using distinct_same_id [OF assms(1) x R(1)] R(2) by simp
    with that show "(r_product_id (f x) = q \<and> r_is_active (f x)) = (r_product_id x = q \<and> r_is_active x) \<and>
        (r_product_id x = q \<and> r_is_active x \<longrightarrow> r_grade (f x) = r_grade x)"
      by (auto simp: f_def)
  qed
  have other: "\<forall>p \<in> set (products db'). p_id p \<noteq> r_product_id review \<longrightarrow>
      p_rating p = mean (active_grades db' (p_id p))"
    using assms(2) same by (auto simp: rating_invariant_def db'_def)
  show ?thesis
  proof (cases "update_product_rating db' (r_product_id review)")
    case (Inl e)
    with Some rating_invariant_without_product [OF other Inl] show ?thesis
      by (simp add: delete_review_def db'_def f_def)
  next
    case (Inr db'')
    with Some rating_invariant_after_update [OF other Inr] show ?thesis
      by (simp add: delete_review_def db'_def f_def)
  qed
qed

lemma next_id_notin: "next_id ids \<notin> set ids"
  using next_id_fresh [of "next_id ids" ids] by auto

lemma rating_invariant_cong:
  "products db' = products db \<Longrightarrow> reviews db' = reviews db \<Longrightarrow>
     rating_invariant db' = rating_invariant db"
  by (simp add: rating_invariant_def active_grades_def)

lemma create_category_tables:
  "products (snd (create_category category db)) = products db"
  "reviews (snd (create_category category db)) = reviews db"
  by (simp_all add: create_category_def insert_category_def split: option.splits)

lemma update_category_tables:
  "products (snd (update_category cid category db)) = products db"
  "reviews (snd (update_category cid category db)) = reviews db"
  by (simp_all add: update_category_def write_category_def split: option.splits)

lemma delete_category_tables:
  "products (snd (delete_category cid db)) = products db"
  "reviews (snd (delete_category cid db)) = reviews db"
  by (simp_all add: delete_category_def split: option.splits)

lemma create_product_rating:
  assumes "integrity db" and "rating_invariant db"
  shows "rating_invariant (snd (create_product product db u))"
proof (cases "find (\<lambda>c. pc_category_id product = c_id c \<and> c_is_active c) (categories db)")
  case None
  with assms show ?thesis by (simp add: create_product_def)
next
  case (Some category)
  define n where "n = new_product product db u"
  have "r_product_id r \<noteq> p_id n" if "r \<in> set (reviews db)" for r
  proof -
    from assms(1) that have "r_product_id r \<in> set (map p_id (products db))"
      by (simp add: integrity_def)
    from next_id_fresh [OF this] show ?thesis
      by (simp add: n_def new_product_def)
  qed
  then have "filter (\<lambda>r. r_product_id r = p_id n \<and> r_is_active r) (reviews db) = []"
    by (auto simp: filter_empty_conv)
  then have "active_grades db (p_id n) = []"
    by (simp add: active_grades_def)
  moreover have "p_rating n = 0"
    by (simp add: n_def new_product_def)
  ultimately have "rating_invariant (db\<lparr>products := products db @ [n]\<rparr>)"
    using assms(2) by (simp add: rating_invariant_def active_grades_def mean_def)
  with Some show ?thesis
    by (simp add: create_product_def n_def)
qed

lemma rating_invariant_map_products:
  assumes "rating_invariant db"
    and "\<And>p. p_id (f p) = p_id p" and "\<And>p. p_rating (f p) = p_rating p"
  shows "rating_invariant (db\<lparr>products := map f (products db)\<rparr>)"
  using assms by (simp add: rating_invariant_def active_grades_def)

lemma update_product_rating_kept:
  assumes "rating_invariant db"
  shows "rating_invariant (snd (update_product pid product db u))"
proof -
  define f :: "product \<Rightarrow> product" where
    "f = (\<lambda>p. if p_id p = pid then product_values product p else p)"
  have "rating_invariant (db\<lparr>products := map f (products db)\<rparr>)"
    by (rule rating_invariant_map_products [OF assms]) (simp_all add: f_def product_values_def)
  with assms show ?thesis
    by (simp add: update_product_def f_def Let_def split: option.splits)
qed

lemma delete_product_rating:
  assumes "rating_invariant db"
  shows "rating_invariant (snd (delete_product pid db u))"
proof -
  define f :: "product \<Rightarrow> product" where
    "f = (\<lambda>p. if p_id p = pid then p\<lparr>p_is_active := False\<rparr> else p)"
  have "rating_invariant (db\<lparr>products := map f (products db)\<rparr>)"
    by (rule rating_invariant_map_products [OF assms]) (simp_all add: f_def)
  with assms show ?thesis
    by (simp add: delete_product_def f_def Let_def split: option.splits)
qed

lemma rating_invariant_step:
  assumes "integrity db" and "rating_invariant db"
  shows "rating_invariant (step rq db)"
proof (cases rq)
  case (CreateCategory category)
  with assms(2) show ?thesis
    by (simp add: rating_invariant_cong [OF create_category_tables])
next
  case (UpdateCategory cid category)
  with assms(2) show ?thesis
    by (simp add: rating_invariant_cong [OF update_category_tables])
next
  case (DeleteCategory cid)
  with assms(2) show ?thesis
    by (simp add: rating_invariant_cong [OF delete_category_tables])
next
  case (CreateProduct product u)
  with assms show ?thesis by (simp add: create_product_rating)
next
  case (UpdateProduct pid product u)
  with assms show ?thesis by (simp add: update_product_rating_kept)
next
  case (DeleteProduct pid u)
  with assms show ?thesis by (simp add: delete_product_rating)
next
  case (CreateReview review u now)
  with assms show ?thesis by (simp add: create_review_rating)
next
  case (DeleteReview rid u)
  with assms show ?thesis by (simp add: delete_review_rating integrity_def)
qed


lemma create_category_integrity:
  assumes "integrity db"
  shows "integrity (snd (create_category category db))"
proof -
  have "integrity (snd (insert_category category db))"
    using assms next_id_notin [of "map c_id (categories db)"]
    by (simp add: integrity_def insert_category_def new_category_def)
  with assms show ?thesis
    by (simp add: create_category_def split: option.splits)
qed

lemma update_category_integrity:
  assumes "integrity db"
  shows "integrity (snd (update_category cid category db))"
proof -
  define f :: "category \<Rightarrow> category" where
    "f = (\<lambda>c. if c_id c = cid then category_values category c else c)"
  have "c_id \<circ> f = c_id"
    by (auto simp: f_def category_values_def fun_eq_iff split: field.splits)
  with assms have "integrity (db\<lparr>categories := map f (categories db)\<rparr>)"
    by (simp add: integrity_def)
  with assms show ?thesis
    by (simp add: update_category_def write_category_def f_def split: option.splits)
qed

lemma delete_category_integrity:
  assumes "integrity db"
  shows "integrity (snd (delete_category cid db))"
proof -
  define f :: "category \<Rightarrow> category" where
    "f = (\<lambda>c. if c_id c = cid then c\<lparr>c_is_active := False\<rparr> else c)"
  have "c_id \<circ> f = c_id"
    by (auto simp: f_def fun_eq_iff)
  with assms have "integrity (db\<lparr>categories := map f (categories db)\<rparr>)"
    by (simp add: integrity_def)
  with assms show ?thesis
    by (simp add: delete_category_def f_def split: option.splits)
qed

lemma create_product_integrity:
  assumes "integrity db"
  shows "integrity (snd (create_product product db u))"
proof -
  have "integrity (db\<lparr>products := products db @ [new_product product db u]\<rparr>)"
    using assms next_id_notin [of "map p_id (products db)"]
    by (auto simp: integrity_def new_product_def)
  with assms show ?thesis
    by (simp add: create_product_def split: option.splits)
qed

lemma integrity_map_products:
  assumes "integrity db" and "p_id \<circ> f = p_id"
  shows "integrity (db\<lparr>products := map f (products db)\<rparr>)"
proof -
  have "p_id ` f ` set (products db) = p_id ` set (products db)"
    using assms(2) by (simp add: image_image fun_eq_iff)
  with assms show ?thesis
    by (simp add: integrity_def)
qed

lemma update_product_integrity:
  assumes "integrity db"
  shows "integrity (snd (update_product pid product db u))"
proof -
  define f :: "product \<Rightarrow> product" where
    "f = (\<lambda>p. if p_id p = pid then product_values product p else p)"
  have "p_id \<circ> f = p_id"
    by (auto simp: f_def product_values_def fun_eq_iff)
  from integrity_map_products [OF assms this] assms show ?thesis
    by (simp add: update_product_def f_def Let_def split: option.splits)
qed

lemma delete_product_integrity:
  assumes "integrity db"
  shows "integrity (snd (delete_product pid db u))"
proof -
  define f :: "product \<Rightarrow> product" where
    "f = (\<lambda>p. if p_id p = pid then p\<lparr>p_is_active := False\<rparr> else p)"
  have "p_id \<circ> f = p_id"
    by (auto simp: f_def fun_eq_iff)
  from integrity_map_products [OF assms this] assms show ?thesis
    by (simp add: delete_product_def f_def Let_def split: option.splits)
qed

lemma update_product_rating_integrity:
  assumes "integrity db" and "update_product_rating db pid = Inr db'"
  shows "integrity db'"
proof -
  define f :: "product \<Rightarrow> product" where
    "f = (\<lambda>p. if p_id p = pid then p\<lparr>p_rating := mean (active_grades db pid)\<rparr> else p)"
  have "p_id \<circ> f = p_id"
    by (auto simp: f_def fun_eq_iff)
  from integrity_map_products [OF assms(1) this] update_product_rating_Inr [OF assms(2)]
  show ?thesis by (simp add: f_def)
qed

lemma create_review_integrity:
  assumes "integrity db"
  shows "integrity (snd (create_review review db u now))"
proof (cases "find (\<lambda>p. p_id p = rc_product_id review \<and> p_is_active p) (products db)")
  case None
  with assms show ?thesis by (simp add: create_review_def)
next
  case (Some db_product)
  from find_SomeD [OF Some] have "rc_product_id review \<in> p_id ` set (products db)"
    by force
  with assms next_id_notin [of "map r_id (reviews db)"]
  have "integrity (db\<lparr>reviews := reviews db @ [new_review review db u now]\<rparr>)"
    by (auto simp: integrity_def new_review_def)
  with assms Some show ?thesis
    by (auto simp: create_review_def Let_def split: sum.splits
        dest: update_product_rating_integrity)
qed

lemma delete_review_integrity:
  assumes "integrity db"
  shows "integrity (snd (delete_review rid db u))"
proof -
  define f :: "review \<Rightarrow> review" where
    "f = (\<lambda>r. if r_id r = rid then r\<lparr>r_is_active := False\<rparr> else r)"
  have "r_id \<circ> f = r_id" and "\<And>r. r_product_id (f r) = r_product_id r"
    by (auto simp: f_def fun_eq_iff)
  with assms have "integrity (db\<lparr>reviews := map f (reviews db)\<rparr>)"
    by (simp add: integrity_def)
  with assms show ?thesis
    by (auto simp: delete_review_def f_def Let_def split: option.splits sum.splits
        dest: update_product_rating_integrity)
qed

lemma integrity_step: "integrity db \<Longrightarrow> integrity (step rq db)"
  by (cases rq)
     (simp_all add: create_category_integrity update_category_integrity
       delete_category_integrity create_product_integrity update_product_integrity
       delete_product_integrity create_review_integrity delete_review_integrity)

lemma integrity_run: "integrity db \<Longrightarrow> integrity (run rqs db)"
  by (induction rqs arbitrary: db) (simp_all add: integrity_step)

lemma integrity_empty: "integrity empty_db"
  by (simp add: integrity_def empty_db_def)

lemma session_products:
  "map p_rating (products (run session empty_db)) = [9 / 2]"
  by (simp add: session_def empty_db_def novels_payload_def ulysses_payload_def
      create_category_def insert_category_def new_category_def parent_id_def
      create_product_def new_product_def create_review_def new_review_def
      update_product_rating_def active_grades_def avg_def next_id_def Let_def)

text \<open>
  Claim C1. In a store with unique keys and valid product references in which every
  product's rating is the mean grade of its active reviews (0 when it has none), the
  same holds after every request and so after every sequence of requests: creating,
  updating or soft-deleting a category, a product or a review, whether the request
  succeeds or fails.
\<close>

theorem rating_invariant_run:
  assumes "integrity db" and "rating_invariant db"
  shows "rating_invariant (run rqs db)"
  using assms
proof (induction rqs arbitrary: db)
  case Nil
  then show ?case by simp
next
  case (Cons rq rqs)
  from Cons.prems have "integrity (step rq db)" and "rating_invariant (step rq db)"
    by (simp_all add: integrity_step rating_invariant_step)
  then show ?case
    by (simp add: Cons.IH)
qed

theorem rating_invariant_run_witness:
  "integrity empty_db \<and> rating_invariant empty_db \<and>
   rating_invariant (run session empty_db) \<and>
   map p_rating (products (run session empty_db)) = [9 / 2]"
  using rating_invariant_run [of empty_db session] session_products
  by (simp add: integrity_def rating_invariant_def empty_db_def)

section \<open>Recomputing a rating without reviews\<close>

lemma active_grades_ids: "active_grades db pid = [] \<longleftrightarrow> active_review_ids db pid = []"
  by (simp add: active_grades_def active_review_ids_def)

lemma update_product_rating_store:
  "(case update_product_rating db pid of Inl e \<Rightarrow> db | Inr db' \<Rightarrow> db') =
     db\<lparr>products :=
          map (\<lambda>p. if p_id p = pid then p\<lparr>p_rating := mean (active_grades db pid)\<rparr> else p)
            (products db)\<rparr>"
proof (cases "update_product_rating db pid")
  case (Inl e)
  from update_product_rating_Inl [OF Inl]
  have "map (\<lambda>p. if p_id p = pid then p\<lparr>p_rating := mean (active_grades db pid)\<rparr> else p)
          (products db) = products db"
    by (intro map_idI) auto
  with Inl show ?thesis by simp
next
  case (Inr db')
  with update_product_rating_Inr [OF Inr] show ?thesis by simp
qed

lemma delete_review_store:
  assumes "find (\<lambda>r. r_id r = rid \<and> r_is_active r) (reviews db) = Some R"
    and "db' = db\<lparr>reviews :=
                   map (\<lambda>r. if r_id r = rid then r\<lparr>r_is_active := False\<rparr> else r) (reviews db)\<rparr>"
  shows "snd (delete_review rid db u) =
           db'\<lparr>products :=
                 map (\<lambda>p. if p_id p = r_product_id R
                          then p\<lparr>p_rating := mean (active_grades db' (r_product_id R))\<rparr> else p)
                   (products db')\<rparr>"
proof -
  have "snd (delete_review rid db u) =
      (case update_product_rating db' (r_product_id R) of Inl e \<Rightarrow> db' | Inr db'' \<Rightarrow> db'')"
    using assms by (simp add: delete_review_def split: sum.splits)
  then show ?thesis
    by (simp only: update_product_rating_store)
qed


lemma delete_review_one:
  assumes "distinct (map r_id (reviews db))" and "rid \<in> set (active_review_ids db pid)"
  shows "\<forall>p \<in> set (products (snd (delete_review rid db u))).
            p_id p = pid \<longrightarrow> p_rating p = mean (active_grades (snd (delete_review rid db u)) pid)"
    and "set (active_review_ids (snd (delete_review rid db u)) pid) =
           set (active_review_ids db pid) - {rid}"
    and "map r_id (reviews (snd (delete_review rid db u))) = map r_id (reviews db)"
    and "map p_id (products (snd (delete_review rid db u))) = map p_id (products db)"
proof -
  from assms(2) obtain R where R: "R \<in> set (reviews db)" "r_id R = rid" "r_product_id R = pid"
    "r_is_active R"
    by (auto simp: active_review_ids_def)
  have found: "find (\<lambda>r. r_id r = rid \<and> r_is_active r) (reviews db) = Some R"
    using find_unique_active [of r_id "reviews db" R r_is_active, OF assms(1) R(1) R(4)] R(2)
    by simp
  define f :: "review \<Rightarrow> review" where
    "f = (\<lambda>r. if r_id r = rid then r\<lparr>r_is_active := False\<rparr> else r)"
  define g :: "product \<Rightarrow> product" where
    "g = (\<lambda>p. if p_id p = pid
              then p\<lparr>p_rating := mean (active_grades (db\<lparr>reviews := map f (reviews db)\<rparr>) pid)\<rparr>
              else p)"
  have store: "snd (delete_review rid db u) =
      db\<lparr>reviews := map f (reviews db), products := map g (products db)\<rparr>"
    using delete_review_store [OF found refl, of u] by (simp add: f_def g_def R(3))
  have f_id: "\<And>r. r_id (f r) = r_id r" and f_pid: "\<And>r. r_product_id (f r) = r_product_id r"
    and f_act: "\<And>r. r_is_active (f r) \<longleftrightarrow> r_is_active r \<and> r_id r \<noteq> rid"
    by (simp_all add: f_def)
  have g_id: "\<And>p. p_id (g p) = p_id p"
    by (simp add: g_def)
  have g_rating: "\<And>p. p_id p = pid \<Longrightarrow>
      p_rating (g p) = mean (active_grades (db\<lparr>reviews := map f (reviews db)\<rparr>) pid)"
    by (simp add: g_def)
  have grades: "active_grades (db\<lparr>reviews := map f (reviews db), products := map g (products db)\<rparr>) pid =
      active_grades (db\<lparr>reviews := map f (reviews db)\<rparr>) pid"
    by (simp add: active_grades_def)
  show "map r_id (reviews (snd (delete_review rid db u))) = map r_id (reviews db)"
    unfolding store by (simp add: o_def f_id)
  show "map p_id (products (snd (delete_review rid db u))) = map p_id (products db)"
    unfolding store by (simp add: o_def g_id)
  have "set (map r_id (filter (\<lambda>r. r_product_id r = pid \<and> r_is_active r) (map f (reviews db)))) =
      set (map r_id (filter (\<lambda>r. r_product_id r = pid \<and> r_is_active r) (reviews db))) - {rid}"
    (is "?L = ?R")
  proof (intro set_eqI iffI)
    fix x assume "x \<in> ?L"
    then obtain r where "r \<in> set (reviews db)" "r_product_id (f r) = pid" "r_is_active (f r)"
      "x = r_id (f r)"
      by auto
    then have "r \<in> set (reviews db)" "r_product_id r = pid" "r_is_active r" "r_id r \<noteq> rid"
      "x = r_id r"
      by (simp_all add: f_id f_pid f_act)
    then show "x \<in> ?R" by force
  next
    fix x assume "x \<in> ?R"
    then obtain r where r: "r \<in> set (reviews db)" "r_product_id r = pid" "r_is_active r"
      "r_id r \<noteq> rid" "x = r_id r"
      by auto
    then have "f r \<in> set (map f (reviews db))" "r_product_id (f r) = pid" "r_is_active (f r)"
      "x = r_id (f r)"
      by (simp_all add: f_id f_pid f_act)
    then show "x \<in> ?L" by force
  qed
  then show "set (active_review_ids (snd (delete_review rid db u)) pid) =
           set (active_review_ids db pid) - {rid}"
    unfolding store by (simp add: active_review_ids_def)
  show "\<forall>p \<in> set (products (snd (delete_review rid db u))).
            p_id p = pid \<longrightarrow> p_rating p = mean (active_grades (snd (delete_review rid db u)) pid)"
    unfolding store grades by (simp add: g_id g_rating)
qed

lemma delete_reviews_all:
  assumes "distinct (map r_id (reviews db))" and "distinct rids"
    and "set rids \<subseteq> set (active_review_ids db pid)"
    and "rids \<noteq> [] \<or>
         (\<forall>p \<in> set (products db). p_id p = pid \<longrightarrow> p_rating p = mean (active_grades db pid))"
  shows "(\<forall>p \<in> set (products (delete_reviews rids db u)).
            p_id p = pid \<longrightarrow> p_rating p = mean (active_grades (delete_reviews rids db u) pid))
       \<and> set (active_review_ids (delete_reviews rids db u) pid) =
           set (active_review_ids db pid) - set rids
       \<and> map p_id (products (delete_reviews rids db u)) = map p_id (products db)"
  using assms
proof (induction rids arbitrary: db)
  case Nil
  then show ?case by simp
next
  case (Cons rid rids)
  let ?db = "snd (delete_review rid db u)"
  from Cons.prems(3) have rid: "rid \<in> set (active_review_ids db pid)" by simp
  note one = delete_review_one [OF Cons.prems(1) rid, of u]
  have "distinct (map r_id (reviews ?db))"
    using Cons.prems(1) one(3) by simp
  moreover have "distinct rids"
    using Cons.prems(2) by simp
  moreover have "set rids \<subseteq> set (active_review_ids ?db pid)"
    using Cons.prems(2,3) one(2) by auto
  moreover have "rids \<noteq> [] \<or>
      (\<forall>p \<in> set (products ?db). p_id p = pid \<longrightarrow> p_rating p = mean (active_grades ?db pid))"
    using one(1) by simp
  ultimately have IH: "(\<forall>p \<in> set (products (delete_reviews rids ?db u)).
            p_id p = pid \<longrightarrow> p_rating p = mean (active_grades (delete_reviews rids ?db u) pid))
       \<and> set (active_review_ids (delete_reviews rids ?db u) pid) =
           set (active_review_ids ?db pid) - set rids
       \<and> map p_id (products (delete_reviews rids ?db u)) = map p_id (products ?db)"
    by (rule Cons.IH)
  with one(2,4) show ?case by auto
qed

lemma rating_of_single:
  assumes "distinct (map p_id (products db))" and "pid \<in> p_id ` set (products db)"
    and "\<forall>p \<in> set (products db). p_id p = pid \<longrightarrow> p_rating p = x"
  shows "rating_of db pid = [x]"
proof -
  have "map p_rating (filter (\<lambda>p. p_id p = pid) ps) = [x]"
    if "distinct (map p_id ps)" and "pid \<in> p_id ` set ps"
      and "\<forall>p \<in> set ps. p_id p = pid \<longrightarrow> p_rating p = x" for ps :: "product list"
    using that
  proof (induction ps)
    case Nil
    then show ?case by simp
  next
    case (Cons p ps)
    show ?case
    proof (cases "p_id p = pid")
      case True
      with Cons.prems(1) have "pid \<notin> p_id ` set ps"
        by simp
      then have "filter (\<lambda>p. p_id p = pid) ps = []"
        by (force simp: filter_empty_conv)
      with True Cons.prems(3) show ?thesis by simp
    next
      case False
      with Cons show ?thesis by simp
    qed
  qed
  with assms show ?thesis
    by (simp add: rating_of_def)
qed

lemma recompute_without_reviews:
  assumes "distinct (map p_id (products db))" and "P \<in> set (products db)"
    and "\<forall>r \<in> set (reviews db). r_product_id r = p_id P \<longrightarrow> \<not> r_is_active r"
  shows "\<exists>db'. update_product_rating db (p_id P) = Inr db' \<and> rating_of db' (p_id P) = [0]"
proof -
  from assms(3) have empty: "active_grades db (p_id P) = []"
    by (auto simp: active_grades_def filter_empty_conv)
  from assms(2) obtain db' where ok: "update_product_rating db (p_id P) = Inr db'"
    using update_product_rating_total [of "p_id P" db] by auto
  define f :: "product \<Rightarrow> product" where
    "f = (\<lambda>p. if p_id p = p_id P then p\<lparr>p_rating := 0\<rparr> else p)"
  have db': "products db' = map f (products db)"
    using update_product_rating_Inr [OF ok] by (simp add: empty mean_def f_def)
  have ids: "\<And>p. p_id (f p) = p_id p" and zero: "\<And>p. p_id p = p_id P \<Longrightarrow> p_rating (f p) = 0"
    by (simp_all add: f_def)
  have "p_id \<circ> f = p_id"
    by (simp add: fun_eq_iff ids)
  then have "distinct (map p_id (products db'))"
    using assms(1) by (simp add: db')
  moreover have "p_id P \<in> p_id ` set (products db')"
    using assms(2) by (simp add: db' image_image ids)
  moreover have "\<forall>p \<in> set (products db'). p_id p = p_id P \<longrightarrow> p_rating p = 0"
    by (simp add: db' ids zero)
  ultimately have "rating_of db' (p_id P) = [0]"
    by (rule rating_of_single)
  with ok show ?thesis by blast
qed

lemma delete_all_reviews:
  assumes "distinct (map p_id (products db))" and "distinct (map r_id (reviews db))"
    and "P \<in> set (products db)"
    and "rids \<noteq> []" and "distinct rids" and "set rids = set (active_review_ids db (p_id P))"
  shows "rating_of (delete_reviews rids db u) (p_id P) = [0]"
    and "active_review_ids (delete_reviews rids db u) (p_id P) = []"
proof -
  define db' where "db' = delete_reviews rids db u"
  have all: "(\<forall>p \<in> set (products db').
            p_id p = p_id P \<longrightarrow> p_rating p = mean (active_grades db' (p_id P)))
       \<and> set (active_review_ids db' (p_id P)) = set (active_review_ids db (p_id P)) - set rids
       \<and> map p_id (products db') = map p_id (products db)"
    unfolding db'_def using assms(4-6) by (intro delete_reviews_all [OF assms(2)]) simp_all
  with assms(6) show none: "active_review_ids (delete_reviews rids db u) (p_id P) = []"
    by (simp add: db'_def)
  then have "mean (active_grades db' (p_id P)) = 0"
    by (simp add: mean_def active_grades_ids db'_def)
  with all have zero: "\<forall>p \<in> set (products db'). p_id p = p_id P \<longrightarrow> p_rating p = 0"
    by simp
  from all have ids: "map p_id (products db') = map p_id (products db)"
    by simp
  have "distinct (map p_id (products db'))"
    using assms(1) by (simp add: ids)
  moreover have "p_id P \<in> p_id ` set (products db')"
    using assms(3) arg_cong [OF ids, of set] by simp
  ultimately have "rating_of db' (p_id P) = [0]"
    using zero by (rule rating_of_single)
  then show "rating_of (delete_reviews rids db u) (p_id P) = [0]"
    by (simp add: db'_def)
qed

text \<open>
  Claim C8. For a product of a store with unique keys: when the product has no active
  review, \<open>update_product_rating\<close> returns a store in which the rating of that product is
  0; and after \<open>delete_review\<close> has been called on every active review of the product, in
  any order, the product has no active review left and its rating is 0.
\<close>

theorem rating_zero_without_reviews:
  assumes "integrity db" and "P \<in> set (products db)"
  shows "((\<forall>r \<in> set (reviews db). r_product_id r = p_id P \<longrightarrow> \<not> r_is_active r) \<longrightarrow>
            (\<exists>db'. update_product_rating db (p_id P) = Inr db' \<and>
               rating_of db' (p_id P) = [0]))
       \<and> (rids \<noteq> [] \<and> distinct rids \<and> set rids = set (active_review_ids db (p_id P)) \<longrightarrow>
            rating_of (delete_reviews rids db u) (p_id P) = [0] \<and>
            active_review_ids (delete_reviews rids db u) (p_id P) = [])"
proof -
  have dp: "distinct (map p_id (products db))" and dr: "distinct (map r_id (reviews db))"
    using assms(1) by (simp_all add: integrity_def)
  show ?thesis
    using recompute_without_reviews [OF dp assms(2)]
      delete_all_reviews [OF dp dr assms(2), of rids u]
    by blast
qed

theorem rating_zero_without_reviews_witness:
  "integrity shop_db \<and> atlas \<in> set (products shop_db) \<and>
   active_review_ids shop_db (p_id atlas) = [] \<and>
   (\<exists>db'. update_product_rating shop_db (p_id atlas) = Inr db' \<and> rating_of db' (p_id atlas) = [0]) \<and>
   ulysses \<in> set (products shop_db) \<and>
   [2, 1] \<noteq> ([] :: int list) \<and> distinct [2, 1 :: int] \<and>
   set [2, 1] = set (active_review_ids shop_db (p_id ulysses)) \<and>
   rating_of shop_db (p_id ulysses) = [9 / 2] \<and>
   rating_of (delete_reviews [2, 1] shop_db \<lparr>u_id = 1\<rparr>) (p_id ulysses) = [0]"
proof -
  have i: "integrity shop_db"
    by (simp add: integrity_def shop_db_def)
  have a: "atlas \<in> set (products shop_db)" and u: "ulysses \<in> set (products shop_db)"
    by (simp_all add: shop_db_def atlas_def ulysses_def)
  have none: "\<forall>r \<in> set (reviews shop_db). r_product_id r = p_id atlas \<longrightarrow> \<not> r_is_active r"
    by (simp add: shop_db_def atlas_def)
  have ids: "set [2, 1] = set (active_review_ids shop_db (p_id ulysses))"
    by (auto simp: shop_db_def ulysses_def active_review_ids_def)
  have before: "rating_of shop_db (p_id ulysses) = [9 / 2]"
    by (simp add: shop_db_def ulysses_def rating_of_def)
  show ?thesis
    using rating_zero_without_reviews [OF i a, of "[]" "\<lparr>u_id = 1\<rparr>"]
      rating_zero_without_reviews [OF i u, of "[2, 1]" "\<lparr>u_id = 1\<rparr>"]
      i a u none ids before
    by (simp add: active_review_ids_def shop_db_def atlas_def)
qed

section \<open>What a soft delete changes\<close>

lemma map_by_key:
  assumes "distinct (map f xs)" and "x \<in> set xs"
  shows "map (\<lambda>y. if f y = f x then h y else y) xs = map (\<lambda>y. if y = x then h y else y) xs"
proof (rule map_cong [OF refl])
  fix y assume "y \<in> set xs"
  with assms have "f y = f x \<longleftrightarrow> y = x"
    using distinct_same_id [of f xs y x] by auto
  then show "(if f y = f x then h y else y) = (if y = x then h y else y)"
    by simp
qed

lemma find_map_key:
  assumes "\<And>y. f (h y) = f y"
  shows "find (\<lambda>y. f y = k) (map h xs) = map_option h (find (\<lambda>y. f y = k) xs)"
  by (induction xs) (simp_all add: assms)

lemma filter_map_except:
  assumes "\<And>y. y \<in> set xs \<Longrightarrow> y \<noteq> a \<Longrightarrow> h y = y" and "\<not> P (h a)"
  shows "filter P (map h xs) = filter (\<lambda>y. P y \<and> y \<noteq> a) xs"
  using assms
proof (induction xs)
  case Nil
  then show ?case by simp
next
  case (Cons x xs)
  then show ?case by (cases "x = a") auto
qed

lemma delete_category_frame:
  assumes "distinct (map c_id (categories db))"
  shows "(\<not> (\<exists>C \<in> set (categories db). c_id C = cid \<and> c_is_active C) \<and>
          delete_category cid db = (Inl (HTTPException 404 ''Category not found''), db))
       \<or> (\<exists>C \<in> set (categories db). c_id C = cid \<and> c_is_active C \<and>
            snd (delete_category cid db) =
              db\<lparr>categories :=
                   map (\<lambda>c. if c = C then c\<lparr>c_is_active := False\<rparr> else c) (categories db)\<rparr>)"
proof (cases "find (\<lambda>c. c_id c = cid \<and> c_is_active c) (categories db)")
  case None
  then have "\<not> (\<exists>C \<in> set (categories db). c_id C = cid \<and> c_is_active C)"
    by (auto simp: find_None_iff)
  with None show ?thesis by (simp add: delete_category_def)
next
  case (Some C)
  from find_SomeD [OF Some] have C: "C \<in> set (categories db)" "c_id C = cid" "c_is_active C"
    by simp_all
  have "map (\<lambda>c. if c_id c = cid then c\<lparr>c_is_active := False\<rparr> else c) (categories db) =
      map (\<lambda>c. if c = C then c\<lparr>c_is_active := False\<rparr> else c) (categories db)"
    using map_by_key [OF assms C(1), of "\<lambda>c. c\<lparr>c_is_active := False\<rparr>"] C(2) by simp
  with Some have "snd (delete_category cid db) =
      db\<lparr>categories :=
           map (\<lambda>c. if c = C then c\<lparr>c_is_active := False\<rparr> else c) (categories db)\<rparr>"
    by (simp add: delete_category_def)
  with C show ?thesis by blast
qed

lemma delete_product_frame:
  assumes "distinct (map p_id (products db))"
  shows "(\<exists>e. delete_product pid db u = (Inl e, db))
       \<or> (\<exists>P \<in> set (products db). p_id P = pid \<and> p_is_active P \<and> p_seller_id P = u_id u \<and>
            delete_product pid db u =
              (Inr (P\<lparr>p_is_active := False\<rparr>),
               db\<lparr>products :=
                    map (\<lambda>p. if p = P then p\<lparr>p_is_active := False\<rparr> else p) (products db)\<rparr>))"
proof (cases "find (\<lambda>p. p_id p = pid \<and> p_is_active p) (products db)")
  case None
  then show ?thesis by (simp add: delete_product_def)
next
  case (Some P)
  from find_SomeD [OF Some] have P: "P \<in> set (products db)" "p_id P = pid" "p_is_active P"
    by simp_all
  show ?thesis
  proof (cases "p_seller_id P = u_id u")
    case False
    with Some show ?thesis by (simp add: delete_product_def)
  next
    case True
    define h :: "product \<Rightarrow> product" where
      "h = (\<lambda>p. if p_id p = pid then p\<lparr>p_is_active := False\<rparr> else p)"
    have h_id: "\<And>p. p_id (h p) = p_id p"
      by (simp add: h_def)
    have "find (\<lambda>p. p_id p = pid) (products db) = Some P"
      using find_unique [OF assms P(1)] P(2) by simp
    then have "find (\<lambda>p. p_id p = pid) (map h (products db)) = Some (h P)"
      by (simp add: find_map_key [of p_id h, OF h_id])
    then have refreshed: "refresh_product (db\<lparr>products := map h (products db)\<rparr>) P =
        Inr (P\<lparr>p_is_active := False\<rparr>)"
      by (simp add: refresh_product_def P(2) h_def)
    have same: "map h (products db) =
        map (\<lambda>p. if p = P then p\<lparr>p_is_active := False\<rparr> else p) (products db)"
      unfolding h_def
      using map_by_key [OF assms P(1), of "\<lambda>p. p\<lparr>p_is_active := False\<rparr>"] P(2) by simp
    have "delete_product pid db u =
        (refresh_product (db\<lparr>products := map h (products db)\<rparr>) P,
         db\<lparr>products := map h (products db)\<rparr>)"
      using Some True by (simp add: delete_product_def h_def Let_def)
    then have "delete_product pid db u =
        (Inr (P\<lparr>p_is_active := False\<rparr>), db\<lparr>products := map h (products db)\<rparr>)"
      by (simp only: refreshed)
    then have "delete_product pid db u =
        (Inr (P\<lparr>p_is_active := False\<rparr>),
         db\<lparr>products :=
              map (\<lambda>p. if p = P then p\<lparr>p_is_active := False\<rparr> else p) (products db)\<rparr>)"
      by (simp only: same)
    with P True show ?thesis by blast
  qed
qed


lemma delete_review_frame:
  assumes "integrity db"
  shows "(\<exists>e. delete_review rid db u = (Inl e, db))
       \<or> (\<exists>R \<in> set (reviews db). r_id R = rid \<and> r_is_active R \<and>
            delete_review rid db u =
              (Inr ''Review deleted'',
               db\<lparr>reviews :=
                    map (\<lambda>r. if r = R then r\<lparr>r_is_active := False\<rparr> else r) (reviews db),
                  products :=
                    map (\<lambda>p. if p_id p = r_product_id R
                             then p\<lparr>p_rating :=
                                    mean (map r_grade
                                      (filter (\<lambda>r. (r_product_id r = r_product_id R \<and>
                                                    r_is_active r) \<and> r \<noteq> R)
                                         (reviews db)))\<rparr>
                             else p)
                      (products db)\<rparr>))"
proof (cases "find (\<lambda>r. r_id r = rid \<and> r_is_active r) (reviews db)")
  case None
  then show ?thesis by (simp add: delete_review_def)
next
  case (Some R)
  from find_SomeD [OF Some] have R: "R \<in> set (reviews db)" "r_id R = rid" "r_is_active R"
    by simp_all
  from assms have dr: "distinct (map r_id (reviews db))"
    and fk: "r_product_id R \<in> p_id ` set (products db)"
    using R(1) by (simp_all add: integrity_def)
  define h :: "review \<Rightarrow> review" where
    "h = (\<lambda>r. if r_id r = rid then r\<lparr>r_is_active := False\<rparr> else r)"
  define db' where "db' = db\<lparr>reviews := map h (reviews db)\<rparr>"
  have same: "map h (reviews db) =
      map (\<lambda>r. if r = R then r\<lparr>r_is_active := False\<rparr> else r) (reviews db)"
    unfolding h_def
    using map_by_key [OF dr R(1), of "\<lambda>r. r\<lparr>r_is_active := False\<rparr>"] R(2) by simp
  have other: "h y = y" if "y \<in> set (reviews db)" and "y \<noteq> R" for y
    using that distinct_same_id [OF dr that(1) R(1)] R(2) by (auto simp: h_def)
  have "\<not> (r_product_id (h R) = r_product_id R \<and> r_is_active (h R))"
    by (simp add: h_def R(2))
  with other have "filter (\<lambda>r. r_product_id r = r_product_id R \<and> r_is_active r) (map h (reviews db)) =
      filter (\<lambda>r. (r_product_id r = r_product_id R \<and> r_is_active r) \<and> r \<noteq> R) (reviews db)"
    by (rule filter_map_except)
  then have grades: "active_grades db' (r_product_id R) =
      map r_grade (filter (\<lambda>r. (r_product_id r = r_product_id R \<and> r_is_active r) \<and> r \<noteq> R)
        (reviews db))"
    by (simp add: active_grades_def db'_def)
  from fk have "r_product_id R \<in> p_id ` set (products db')"
    by (simp add: db'_def)
  then obtain db'' where ok: "update_product_rating db' (r_product_id R) = Inr db''"
    using update_product_rating_total by blast
  have "delete_review rid db u = (Inr ''Review deleted'', db'')"
    using Some ok by (simp add: delete_review_def db'_def h_def Let_def)
  moreover have "db'' = db'\<lparr>products :=
      map (\<lambda>p. if p_id p = r_product_id R
               then p\<lparr>p_rating := mean (active_grades db' (r_product_id R))\<rparr> else p)
        (products db')\<rparr>"
    by (rule update_product_rating_Inr [OF ok])
  ultimately have "delete_review rid db u =
      (Inr ''Review deleted'',
       db\<lparr>reviews :=
            map (\<lambda>r. if r = R then r\<lparr>r_is_active := False\<rparr> else r) (reviews db),
          products :=
            map (\<lambda>p. if p_id p = r_product_id R
                     then p\<lparr>p_rating :=
                            mean (map r_grade
                              (filter (\<lambda>r. (r_product_id r = r_product_id R \<and>
                                            r_is_active r) \<and> r \<noteq> R)
                                 (reviews db)))\<rparr>
                     else p)
              (products db)\<rparr>)"
    unfolding grades by (simp add: db'_def same)
  with R show ?thesis by blast
qed

text \<open>
  Claim C10. In a store with unique keys and valid product references, each soft delete
  either fails and returns the store as it was, or returns the store in which exactly
  the target row has changed, and only in its \<open>is_active\<close> flag, now false. For a category
  and a product nothing else changes. For a review the rating of the reviewed product
  is, in addition, set to the mean grade of its remaining active reviews; every other
  field of that product, and every other row, is as before.
\<close>

theorem soft_delete_frame:
  assumes "integrity db"
  shows "((\<not> (\<exists>C \<in> set (categories db). c_id C = cid \<and> c_is_active C) \<and>
           delete_category cid db = (Inl (HTTPException 404 ''Category not found''), db))
        \<or> (\<exists>C \<in> set (categories db). c_id C = cid \<and> c_is_active C \<and>
             snd (delete_category cid db) =
               db\<lparr>categories :=
                    map (\<lambda>c. if c = C then c\<lparr>c_is_active := False\<rparr> else c) (categories db)\<rparr>))
       \<and> ((\<exists>e. delete_product pid db seller = (Inl e, db))
        \<or> (\<exists>P \<in> set (products db). p_id P = pid \<and> p_is_active P \<and> p_seller_id P = u_id seller \<and>
             delete_product pid db seller =
               (Inr (P\<lparr>p_is_active := False\<rparr>),
                db\<lparr>products :=
                     map (\<lambda>p. if p = P then p\<lparr>p_is_active := False\<rparr> else p) (products db)\<rparr>)))
       \<and> ((\<exists>e. delete_review rid db admin = (Inl e, db))
        \<or> (\<exists>R \<in> set (reviews db). r_id R = rid \<and> r_is_active R \<and>
             delete_review rid db admin =
               (Inr ''Review deleted'',
                db\<lparr>reviews :=
                     map (\<lambda>r. if r = R then r\<lparr>r_is_active := False\<rparr> else r) (reviews db),
                   products :=
                     map (\<lambda>p. if p_id p = r_product_id R
                              then p\<lparr>p_rating :=
                                     mean (map r_grade
                                       (filter (\<lambda>r. (r_product_id r = r_product_id R \<and>
                                                     r_is_active r) \<and> r \<noteq> R)
                                          (reviews db)))\<rparr>
                              else p)
                       (products db)\<rparr>)))"
proof (intro conjI)
  from assms have dc: "distinct (map c_id (categories db))"
    and dp: "distinct (map p_id (products db))"
    by (simp_all add: integrity_def)
  show "(\<not> (\<exists>C \<in> set (categories db). c_id C = cid \<and> c_is_active C) \<and>
           delete_category cid db = (Inl (HTTPException 404 ''Category not found''), db))
        \<or> (\<exists>C \<in> set (categories db). c_id C = cid \<and> c_is_active C \<and>
             snd (delete_category cid db) =
               db\<lparr>categories :=
                    map (\<lambda>c. if c = C then c\<lparr>c_is_active := False\<rparr> else c) (categories db)\<rparr>)"
    by (rule delete_category_frame [OF dc])
  show "(\<exists>e. delete_product pid db seller = (Inl e, db))
        \<or> (\<exists>P \<in> set (products db). p_id P = pid \<and> p_is_active P \<and> p_seller_id P = u_id seller \<and>
             delete_product pid db seller =
               (Inr (P\<lparr>p_is_active := False\<rparr>),
                db\<lparr>products :=
                     map (\<lambda>p. if p = P then p\<lparr>p_is_active := False\<rparr> else p) (products db)\<rparr>))"
    by (rule delete_product_frame [OF dp])
  show "(\<exists>e. delete_review rid db admin = (Inl e, db))
        \<or> (\<exists>R \<in> set (reviews db). r_id R = rid \<and> r_is_active R \<and>
             delete_review rid db admin =
               (Inr ''Review deleted'',
                db\<lparr>reviews :=
                     map (\<lambda>r. if r = R then r\<lparr>r_is_active := False\<rparr> else r) (reviews db),
                   products :=
                     map (\<lambda>p. if p_id p = r_product_id R
                              then p\<lparr>p_rating :=
                                     mean (map r_grade
                                       (filter (\<lambda>r. (r_product_id r = r_product_id R \<and>
                                                     r_is_active r) \<and> r \<noteq> R)
                                          (reviews db)))\<rparr>
                              else p)
                       (products db)\<rparr>))"
    by (rule delete_review_frame [OF assms])
qed

theorem soft_delete_frame_witness:
  "integrity shop_db \<and>
   snd (delete_category 2 shop_db) =
     shop_db\<lparr>categories := [books, novels\<lparr>c_is_active := False\<rparr>, maps]\<rparr> \<and>
   delete_product 1 shop_db \<lparr>u_id = 10\<rparr> =
     (Inr (ulysses\<lparr>p_is_active := False\<rparr>),
      shop_db\<lparr>products := [ulysses\<lparr>p_is_active := False\<rparr>, atlas]\<rparr>) \<and>
   delete_review 1 shop_db \<lparr>u_id = 1\<rparr> =
     (Inr ''Review deleted'',
      shop_db\<lparr>reviews := first_review\<lparr>r_is_active := False\<rparr> # tl (reviews shop_db),
               products := [ulysses\<lparr>p_rating := 5\<rparr>, atlas]\<rparr>) \<and>
   delete_category 3 shop_db = (Inl (HTTPException 404 ''Category not found''), shop_db)"
  using soft_delete_frame [where db = shop_db and cid = 2 and pid = 1 and seller = "\<lparr>u_id = 10\<rparr>"
      and rid = 1 and admin = "\<lparr>u_id = 1\<rparr>"]
    soft_delete_frame [where db = shop_db and cid = 3 and pid = 1 and seller = "\<lparr>u_id = 10\<rparr>"
      and rid = 1 and admin = "\<lparr>u_id = 1\<rparr>"]
  by (simp add: integrity_def shop_db_def books_def novels_def maps_def ulysses_def atlas_def
      first_review_def delete_category_def delete_product_def refresh_product_def
      delete_review_def update_product_rating_def active_grades_def avg_def Let_def)

end
